theory Spec2Isabelle
  imports Main "HOL-Library.Log_Nat"
begin

text \<open>
  A shallow embedding of the dressage visualizer: the page component that reads the
  test store (\<open>src/unnamed/part_000\<close>) and the test data (\<open>src/app/tests.tsx\<close>):
  the arena geometry and the coordinate projector, the renderer of letters and path
  segments, the grouping of the table rows, and the state of the page with its step
  visibility controls. Functions that can throw return \<open>error + 'a\<close>; React state is
  passed explicitly. The definitions come first, then their properties, then the
  properties of the specification, each under the identifier of its claim.
\<close>

section \<open>JavaScript numbers\<close>

text \<open>
  A TypeScript \<open>number\<close> is an IEEE 754 binary64 value: a finite value, one of the
  two infinities or \<open>NaN\<close>. A finite value is kept as the rational it denotes. The two
  zeros are one value here: they compare equal and print alike, and differ only as
  divisors, and the page never divides by a computed zero.
\<close>

datatype number = Fin rat | PosInf | NegInf | NaN

text \<open>Rounding to the nearest integer, a tie going to the even neighbour.\<close>

definition round_half_even :: "rat \<Rightarrow> int" where
  "round_half_even q =
     (let f = \<lfloor>q\<rfloor>; d = q - of_int f in
      if d < 1 / 2 then f else if 1 / 2 < d then f + 1 else if even f then f else f + 1)"

text \<open>The binary exponent of a positive rational: the \<open>k\<close> with \<open>2^k \<le> q < 2^(k+1)\<close>.\<close>

definition ilog2 :: "rat \<Rightarrow> int" where
  "ilog2 q = (if 1 \<le> q then bitlen \<lfloor>q\<rfloor> - 1 else - bitlen (\<lceil>1 / q\<rceil> - 1))"

text \<open>
  The binary64 value of an exact result, in the default rounding mode: the result is
  rounded to 53 significant bits (to a multiple of \<open>2^-1074\<close> in the subnormal
  range), ties to even, and a rounded magnitude of \<open>2^1024\<close> or more is an infinity.
\<close>

definition binary64 :: "rat \<Rightarrow> number" where
  "binary64 q =
     (if q = 0 then Fin 0
      else
        let e = max (ilog2 \<bar>q\<bar> - 52) (- 1074);
            r = of_int (round_half_even (q / 2 powi e)) * 2 powi e
        in if 2 ^ 1024 \<le> r then PosInf else if r \<le> - (2 ^ 1024) then NegInf else Fin r)"

text \<open>The operators \<open>+\<close>, unary and binary \<open>-\<close>, \<open>*\<close> and \<open>/\<close> on numbers.\<close>

fun num_add :: "number \<Rightarrow> number \<Rightarrow> number" where
  "num_add (Fin a) (Fin b) = binary64 (a + b)"
| "num_add NaN _ = NaN"
| "num_add _ NaN = NaN"
| "num_add PosInf NegInf = NaN"
| "num_add NegInf PosInf = NaN"
| "num_add PosInf _ = PosInf"
| "num_add _ PosInf = PosInf"
| "num_add NegInf _ = NegInf"
| "num_add _ NegInf = NegInf"

fun num_neg :: "number \<Rightarrow> number" where
  "num_neg (Fin a) = Fin (- a)"
| "num_neg PosInf = NegInf"
| "num_neg NegInf = PosInf"
| "num_neg NaN = NaN"

definition num_sub :: "number \<Rightarrow> number \<Rightarrow> number" where
  "num_sub a b = num_add a (num_neg b)"

fun num_mul :: "number \<Rightarrow> number \<Rightarrow> number" where
  "num_mul (Fin a) (Fin b) = binary64 (a * b)"
| "num_mul NaN _ = NaN"
| "num_mul _ NaN = NaN"
| "num_mul PosInf (Fin b) = (if b = 0 then NaN else if 0 < b then PosInf else NegInf)"
| "num_mul NegInf (Fin b) = (if b = 0 then NaN else if 0 < b then NegInf else PosInf)"
| "num_mul (Fin a) PosInf = (if a = 0 then NaN else if 0 < a then PosInf else NegInf)"
| "num_mul (Fin a) NegInf = (if a = 0 then NaN else if 0 < a then NegInf else PosInf)"
| "num_mul PosInf PosInf = PosInf"
| "num_mul NegInf NegInf = PosInf"
| "num_mul PosInf NegInf = NegInf"
| "num_mul NegInf PosInf = NegInf"

fun num_div :: "number \<Rightarrow> number \<Rightarrow> number" where
  "num_div (Fin a) (Fin b) =
     (if b = 0 then (if a = 0 then NaN else if 0 < a then PosInf else NegInf)
      else binary64 (a / b))"
| "num_div NaN _ = NaN"
| "num_div _ NaN = NaN"
| "num_div (Fin a) _ = Fin 0"
| "num_div PosInf (Fin b) = (if 0 \<le> b then PosInf else NegInf)"
| "num_div NegInf (Fin b) = (if 0 \<le> b then NegInf else PosInf)"
| "num_div _ _ = NaN"

section \<open>JavaScript containers\<close>

text \<open>
  A JavaScript \<open>Set\<close> keeps its elements in insertion order without duplicates.
  It is modelled as the list of its elements in that order. \<open>has\<close> and the
  \<open>size\<close> property read it, \<open>add\<close> appends an element that is not yet a
  member, \<open>delete\<close> removes it, and \<open>new Set(iterable)\<close> adds the elements of
  the iterable one after the other.
\<close>

type_synonym 'a js_set = "'a list"

definition Set_has :: "'a js_set \<Rightarrow> 'a \<Rightarrow> bool" where
  "Set_has s v = (v \<in> set s)"

definition Set_add :: "'a js_set \<Rightarrow> 'a \<Rightarrow> 'a js_set" where
  "Set_add s v = (if Set_has s v then s else s @ [v])"

definition Set_delete :: "'a js_set \<Rightarrow> 'a \<Rightarrow> 'a js_set" where
  "Set_delete s v = removeAll v s"

definition Set_new :: "'a list \<Rightarrow> 'a js_set" where
  "Set_new xs = foldl Set_add [] xs"

definition Set_size :: "'a js_set \<Rightarrow> nat" where
  "Set_size s = length s"

text \<open>
  A \<open>Map\<close> is the list of its entries in insertion order. \<open>set\<close> on a key that
  is present replaces the value where it stands, on a new key it appends the entry.
\<close>

type_synonym ('k, 'v) js_map = "('k \<times> 'v) list"

definition Map_has :: "('k, 'v) js_map \<Rightarrow> 'k \<Rightarrow> bool" where
  "Map_has m k = (k \<in> fst ` set m)"

definition Map_get :: "('k, 'v) js_map \<Rightarrow> 'k \<Rightarrow> 'v option" where
  "Map_get m k = map_of m k"

definition Map_set :: "('k, 'v) js_map \<Rightarrow> 'k \<Rightarrow> 'v \<Rightarrow> ('k, 'v) js_map" where
  "Map_set m k v =
     (if Map_has m k then map (\<lambda>(k', v'). if k' = k then (k', v) else (k', v')) m
      else m @ [(k, v)])"

text \<open>
  Reading a property of an object literal: \<open>obj[key]\<close>. The object is the list of its
  own properties in enumeration order (which is the order they are written in, the keys
  being distinct and none of them an array index). A key that is not an own property is
  looked up on \<open>Object.prototype\<close>; the names found there give a function or an object,
  which is neither \<open>undefined\<close> nor a value of the table. Every other key reads as
  \<open>undefined\<close>.
\<close>

datatype 'a property = Own 'a | Inherited | Undefined

definition object_prototype_keys :: "string list" where
  "object_prototype_keys =
     [''constructor'', ''hasOwnProperty'', ''isPrototypeOf'', ''propertyIsEnumerable'',
      ''toLocaleString'', ''toString'', ''valueOf'', ''__proto__'',
      ''__defineGetter__'', ''__defineSetter__'', ''__lookupGetter__'', ''__lookupSetter__'']"

definition js_get :: "(string \<times> 'a) list \<Rightarrow> string \<Rightarrow> 'a property" where
  "js_get obj k =
     (case map_of obj k of
        Some v \<Rightarrow> Own v
      | None \<Rightarrow> if k \<in> set object_prototype_keys then Inherited else Undefined)"

definition Object_keys :: "(string \<times> 'a) list \<Rightarrow> string list" where
  "Object_keys obj = map fst obj"

section \<open>Types of the page\<close>

datatype Direction = DirLeft | DirRight

text \<open>
  \<open>Segment = LineSeg | CircleSeg\<close>. Step numbers are written as integers in the test
  data and are only compared, put into sets and sorted, so they are \<open>int\<close>.
\<close>

datatype Segment =
    LineSeg (waypoints: "string list") (label: "string option") (step: int)
  | CircleSeg (at: string) (direction: Direction) (label: "string option") (step: int)

text \<open>\<open>StepRow\<close>; the fields carry the prefix \<open>row_\<close> (\<open>where\<close> is a keyword).\<close>

record StepRow =
  row_step :: int
  row_where :: string
  row_directive :: string
  row_ideas :: "string option"

text \<open>\<open>TestDef\<close>: \<open>rows\<close>, \<open>steps\<close> and \<open>segments\<close> are optional.\<close>

record TestDef =
  test_id :: string
  test_name :: string
  rows :: "StepRow list option"
  steps :: "StepRow list option"
  segments :: "Segment list option"

section \<open>The seeded test definitions (tests.tsx)\<close>

definition line :: "int \<Rightarrow> string list \<Rightarrow> Segment" where
  "line stp wps = LineSeg wps None stp"

definition circle :: "int \<Rightarrow> string \<Rightarrow> Direction \<Rightarrow> Segment" where
  "circle stp a dir = CircleSeg a dir None stp"

definition introA_rows :: "StepRow list" where
  "introA_rows =
    [\<lparr>row_step = 1, row_where = ''A'', row_directive = ''Enter, working trot rising'',
      row_ideas = Some ''Regularity, quality of trot; straightness, willing, calm transition''\<rparr>,
     \<lparr>row_step = 1, row_where = ''Between X & C'', row_directive = ''Medium walk'',
      row_ideas = Some ''Regularity, quality of walk''\<rparr>,
     \<lparr>row_step = 2, row_where = ''C'', row_directive = ''Track right'',
      row_ideas = Some ''Bend and balance; willing, calm transition''\<rparr>,
     \<lparr>row_step = 2, row_where = ''M'', row_directive = ''Working trot rising'',
      row_ideas = None\<rparr>,
     \<lparr>row_step = 3, row_where = ''A'',
      row_directive = ''Circle right 20 meters, working trot rising'',
      row_ideas = Some ''Regularity; shape and size of circle; bend; balance''\<rparr>,
     \<lparr>row_step = 4, row_where = ''K - X - M'',
      row_directive = ''Change rein, working trot rising'',
      row_ideas = Some ''Regularity of trot; straightness; bend and balance in corner''\<rparr>,
     \<lparr>row_step = 5, row_where = ''C'',
      row_directive = ''Circle left 20 meters, working trot rising'',
      row_ideas = Some ''Regularity; shape and size of circle; bend; balance''\<rparr>,
     \<lparr>row_step = 6, row_where = ''Between C & H'', row_directive = ''Medium walk'',
      row_ideas = Some ''Willing, calm transition; regularity, quality''\<rparr>,
     \<lparr>row_step = 7, row_where = ''H - X - F'', row_directive = ''Free walk'',
      row_ideas = Some ''Regularity, reach and ground cover with over track of free walk allowing complete freedom to stretch the neck forward and downward''\<rparr>,
     \<lparr>row_step = 8, row_where = ''F - A'', row_directive = ''Medium walk'',
      row_ideas = Some ''Regularity, quality, willing, calm transition, bend and balance in turn straightness on centerline.''\<rparr>,
     \<lparr>row_step = 8, row_where = ''A'', row_directive = ''Down centerline'',
      row_ideas = None\<rparr>,
     \<lparr>row_step = 9, row_where = ''X'', row_directive = ''Halt and salute'',
      row_ideas = Some ''Straightness; attentiveness; immobility (min. 3 seconds)''\<rparr>]"

definition introA_segments :: "Segment list" where
  "introA_segments =
    [line 1 [''A'', ''X'', ''C''],
     line 2 [''C'', ''M''],
     circle 3 ''B'' DirRight,
     line 4 [''K'', ''X'', ''M''],
     circle 5 ''E'' DirLeft,
     line 6 [''E'', ''C'', ''H''],
     line 7 [''H'', ''X'', ''F''],
     line 8 [''F'', ''A'', ''X'']]"

definition introA :: TestDef where
  "introA =
    \<lparr>test_id = ''introA'',
     test_name = ''USDF 2023 Introductory Level, Test A (20m x 40m)'',
     rows = Some introA_rows, steps = None, segments = Some introA_segments\<rparr>"

definition TESTS :: "(string \<times> TestDef) list" where
  "TESTS = [(''introA'', introA)]"

section \<open>Arena constants and geometry\<close>

datatype error = UnknownLetter string | TypeError

type_synonym point = "number \<times> number"

definition ARENA_W :: number where "ARENA_W = Fin 200"
definition ARENA_H :: number where "ARENA_H = Fin 400"
definition PAD :: number where "PAD = Fin 24"
definition LABEL_OFFSET :: number where "LABEL_OFFSET = Fin 14"

definition Xpx :: "number \<Rightarrow> number" where
  "Xpx x = num_add x PAD"

definition Ypx :: "number \<Rightarrow> number" where
  "Ypx y = num_add y PAD"

definition Y_TOP_6 :: number where
  "Y_TOP_6 = num_mul (num_div (Fin 6) (Fin 40)) ARENA_H"

definition Y_MID_20 :: number where
  "Y_MID_20 = num_mul (num_div (Fin 20) (Fin 40)) ARENA_H"

definition Y_BOT_34 :: number where
  "Y_BOT_34 = num_mul (num_div (Fin 34) (Fin 40)) ARENA_H"

definition geom :: "(string \<times> point) list" where
  "geom =
    [(''C'', (num_div ARENA_W (Fin 2), Fin 0)),
     (''A'', (num_div ARENA_W (Fin 2), ARENA_H)),
     (''K'', (Fin 0, Y_BOT_34)),
     (''E'', (Fin 0, Y_MID_20)),
     (''H'', (Fin 0, Y_TOP_6)),
     (''F'', (ARENA_W, Y_BOT_34)),
     (''B'', (ARENA_W, Y_MID_20)),
     (''M'', (ARENA_W, Y_TOP_6)),
     (''G'', (num_div ARENA_W (Fin 2), Y_TOP_6)),
     (''X'', (num_div ARENA_W (Fin 2), Y_MID_20)),
     (''D'', (num_div ARENA_W (Fin 2), Y_BOT_34))]"

text \<open>
  \<open>toPoints\<close>: the string \<open>"x1,y1 x2,y2 ..."\<close> it builds is kept as the list of the
  points it prints. \<open>map\<close> visits the identifiers in order, so the error thrown is the
  one of the first unknown identifier. An entry inherited from \<open>Object.prototype\<close> is
  truthy and has no \<open>x\<close> and no \<open>y\<close>: both read as \<open>undefined\<close>, and the only use
  made of them is the addition in \<open>Xpx\<close> and \<open>Ypx\<close>, where \<open>undefined\<close> converts to
  \<open>NaN\<close>.
\<close>

fun toPoints :: "string list \<Rightarrow> error + point list" where
  "toPoints [] = Inr []"
| "toPoints (i # ids) =
     (case js_get geom i of
        Undefined \<Rightarrow> Inl (UnknownLetter i)
      | Own p \<Rightarrow>
          (case toPoints ids of
             Inl e \<Rightarrow> Inl e
           | Inr ps \<Rightarrow> Inr ((Xpx (fst p), Ypx (snd p)) # ps))
      | Inherited \<Rightarrow>
          (case toPoints ids of
             Inl e \<Rightarrow> Inl e
           | Inr ps \<Rightarrow> Inr ((Xpx NaN, Ypx NaN) # ps)))"

definition isCenterLetter :: "string \<Rightarrow> bool" where
  "isCenterLetter i = (i = ''G'' \<or> i = ''X'' \<or> i = ''D'')"

datatype Anchor = AnchorMiddle | AnchorEnd | AnchorStart

definition labelPos :: "string \<Rightarrow> error + (number \<times> number \<times> Anchor)" where
  "labelPos i =
     (case js_get geom i of
        Undefined \<Rightarrow> Inl (UnknownLetter i)
      | Own p \<Rightarrow>
          Inr (if i = ''C'' then (fst p, num_neg LABEL_OFFSET, AnchorMiddle)
               else if i = ''A'' then (fst p, num_add ARENA_H LABEL_OFFSET, AnchorMiddle)
               else if i = ''K'' \<or> i = ''E'' \<or> i = ''H''
                 then (num_neg LABEL_OFFSET, snd p, AnchorEnd)
               else if i = ''F'' \<or> i = ''B'' \<or> i = ''M''
                 then (num_add ARENA_W LABEL_OFFSET, snd p, AnchorStart)
               else (fst p, snd p, AnchorMiddle))
      | Inherited \<Rightarrow> Inr (NaN, NaN, AnchorMiddle))"

definition LETTERS :: "string list" where
  "LETTERS = [''C'', ''M'', ''B'', ''F'', ''H'', ''E'', ''K'', ''G'', ''X'', ''D'', ''A'']"

section \<open>SVG helpers\<close>

text \<open>
  What the page draws: the \<open>polyline\<close> and \<open>circle\<close> elements of the path, and the
  \<open>text\<close> elements of the letters. The constant presentation attributes (stroke,
  fill, font size) are left out; the fill and weight of a letter follow from
  \<open>isCenterLetter\<close>, kept as the field \<open>center\<close>.
\<close>

datatype svg =
    PolylineEl (el_points: "point list")
  | CircleEl (el_cx: number) (el_cy: number) (el_r: number)

record TextEl =
  text_x :: number
  text_y :: number
  textAnchor :: Anchor
  content :: string
  center :: bool

text \<open>\<open>CircleAt\<close> returns \<open>null\<close>, which draws nothing, when the lookup is falsy.\<close>

definition CircleAt :: "string \<Rightarrow> svg option" where
  "CircleAt a =
     (case js_get geom a of
        Undefined \<Rightarrow> None
      | Own p \<Rightarrow> Some (CircleEl (Xpx (num_div ARENA_W (Fin 2))) (Ypx (snd p)) (num_div ARENA_W (Fin 2)))
      | Inherited \<Rightarrow> Some (CircleEl (Xpx (num_div ARENA_W (Fin 2))) (Ypx NaN) (num_div ARENA_W (Fin 2))))"

fun DrawSegment :: "Segment \<Rightarrow> error + svg option" where
  "DrawSegment (LineSeg wps _ _) =
     (case toPoints wps of Inl e \<Rightarrow> Inl e | Inr ps \<Rightarrow> Inr (Some (PolylineEl ps)))"
| "DrawSegment (CircleSeg a _ _ _) = Inr (CircleAt a)"

section \<open>Table grouping\<close>

text \<open>
  \<open>groupByStep\<close>. The loop over the rows keeps the \<open>Map\<close> \<open>groups\<close> and the array
  \<open>ordered\<close>. \<open>groups.get(r.step)!.push(r)\<close> appends to the array stored in the map;
  on \<open>undefined\<close> the call would be a \<open>TypeError\<close>. The \<open>rows\<close> of a group are
  \<open>groups.get(step)!\<close>, where the \<open>!\<close> is an annotation only, so the field is optional
  in the model.
\<close>

record Group =
  g_step :: int
  g_rows :: "StepRow list option"

fun groupLoop ::
  "StepRow list \<Rightarrow> (int, StepRow list) js_map \<Rightarrow> int list \<Rightarrow>
     error + ((int, StepRow list) js_map \<times> int list)" where
  "groupLoop [] groups ordered = Inr (groups, ordered)"
| "groupLoop (r # rs) groups ordered =
     (let (groups1, ordered1) =
            (if \<not> Map_has groups (row_step r)
             then (Map_set groups (row_step r) [], ordered @ [row_step r])
             else (groups, ordered))
      in case Map_get groups1 (row_step r) of
           None \<Rightarrow> Inl TypeError
         | Some arr \<Rightarrow> groupLoop rs (Map_set groups1 (row_step r) (arr @ [r])) ordered1)"

definition groupByStep :: "StepRow list \<Rightarrow> error + Group list" where
  "groupByStep rws =
     (case groupLoop rws [] [] of
        Inl e \<Rightarrow> Inl e
      | Inr (groups, ordered) \<Rightarrow>
          Inr (map (\<lambda>s. \<lparr>g_step = s, g_rows = Map_get groups s\<rparr>) ordered))"

text \<open>
  The body of the table of \<open>StepsTable4Col\<close>: one \<open>tr\<close> for each row of each group.
  The first \<open>tr\<close> of a group carries the checkbox cell, whose \<open>rowSpan\<close> is the
  number of rows of the group, whose \<open>checked\<close> is \<open>isStepVisible(g.step)\<close> and whose
  \<open>onChange\<close> toggles the step \<open>g.step\<close>.
\<close>

record Checkbox =
  rowSpan :: nat
  checked :: bool
  cb_step :: int

record TableRow =
  tr_key :: "int \<times> nat"
  checkbox :: "Checkbox option"
  td_where :: string
  td_directive :: string
  td_ideas :: string

definition tableRow :: "(int \<Rightarrow> bool) \<Rightarrow> int \<Rightarrow> nat \<Rightarrow> nat \<Rightarrow> StepRow \<Rightarrow> TableRow" where
  "tableRow vis stp n idx rw =
     \<lparr>tr_key = (stp, idx),
      checkbox =
        (if idx = 0 then Some \<lparr>rowSpan = n, checked = vis stp, cb_step = stp\<rparr> else None),
      td_where = row_where rw,
      td_directive = row_directive rw,
      td_ideas = (case row_ideas rw of Some t \<Rightarrow> t | None \<Rightarrow> [])\<rparr>"

text \<open>\<open>g.rows.map((r, idx) => <tr ...>)\<close>; on \<open>undefined\<close> rows it is a \<open>TypeError\<close>.\<close>

definition groupTrs :: "(int \<Rightarrow> bool) \<Rightarrow> Group \<Rightarrow> error + TableRow list" where
  "groupTrs vis g =
     (case g_rows g of
        None \<Rightarrow> Inl TypeError
      | Some rs \<Rightarrow>
          Inr (map (\<lambda>(idx, rw). tableRow vis (g_step g) (length rs) idx rw) (enumerate 0 rs)))"

fun flatMapE :: "('a \<Rightarrow> error + 'b list) \<Rightarrow> 'a list \<Rightarrow> error + 'b list" where
  "flatMapE f [] = Inr []"
| "flatMapE f (x # xs) =
     (case f x of
        Inl e \<Rightarrow> Inl e
      | Inr ys \<Rightarrow> (case flatMapE f xs of Inl e \<Rightarrow> Inl e | Inr zs \<Rightarrow> Inr (ys @ zs)))"

definition StepsTable4Col :: "StepRow list \<Rightarrow> (int \<Rightarrow> bool) \<Rightarrow> error + TableRow list" where
  "StepsTable4Col rws vis =
     (case groupByStep rws of
        Inl e \<Rightarrow> Inl e
      | Inr groups \<Rightarrow> flatMapE (groupTrs vis) groups)"

section \<open>The page: active test and step visibility\<close>

text \<open>
  The two pieces of React state of \<open>Page\<close>. The store \<open>tests\<close> is a parameter of
  every operation, so that the operations are defined for any store and not only for
  the seeded one.
\<close>

record PageState =
  activeTestId :: string
  hiddenSteps :: "int js_set"

definition testIds :: "(string \<times> TestDef) list \<Rightarrow> string list" where
  "testIds tests = Object_keys tests"

text \<open>\<open>(testIds[0] ?? '')\<close>\<close>

definition defaultTestId :: "(string \<times> TestDef) list \<Rightarrow> string" where
  "defaultTestId tests = (case testIds tests of [] \<Rightarrow> [] | k # _ \<Rightarrow> k)"

definition initialState :: "(string \<times> TestDef) list \<Rightarrow> PageState" where
  "initialState tests = \<lparr>activeTestId = defaultTestId tests, hiddenSteps = []\<rparr>"

text \<open>
  \<open>tests[activeTestId] ?? tests[testIds[0]]\<close>: the right operand is read only when
  the left one is \<open>undefined\<close>. With an empty store \<open>testIds[0]\<close> is \<open>undefined\<close>
  and the key read is the string \<open>"undefined"\<close>, which is not an own key then.
\<close>

definition activeTest :: "(string \<times> TestDef) list \<Rightarrow> string \<Rightarrow> TestDef property" where
  "activeTest tests aid =
     (case js_get tests aid of
        Undefined \<Rightarrow>
          (case testIds tests of
             [] \<Rightarrow> js_get tests ''undefined''
           | k # _ \<Rightarrow> js_get tests k)
      | v \<Rightarrow> v)"

text \<open>
  \<open>activeTest?.rows ?? activeTest?.steps ?? []\<close> and \<open>activeTest?.segments ?? []\<close>.
  A value inherited from \<open>Object.prototype\<close> has none of these properties.
\<close>

definition stepRows :: "TestDef property \<Rightarrow> StepRow list" where
  "stepRows t =
     (case t of
        Own d \<Rightarrow>
          (case rows d of
             Some rs \<Rightarrow> rs
           | None \<Rightarrow> (case steps d of Some ss \<Rightarrow> ss | None \<Rightarrow> []))
      | _ \<Rightarrow> [])"

definition segmentsOf :: "TestDef property \<Rightarrow> Segment list" where
  "segmentsOf t =
     (case t of
        Own d \<Rightarrow> (case segments d of Some sg \<Rightarrow> sg | None \<Rightarrow> [])
      | _ \<Rightarrow> [])"

text \<open>
  \<open>stepsInSegments\<close>: the steps of the segments collected into a \<open>Set\<close>, turned into
  an array and sorted by \<open>(a, b) => a - b\<close>.
\<close>

definition stepsInSegments :: "Segment list \<Rightarrow> int list" where
  "stepsInSegments segs = sort (foldl (\<lambda>s seg. Set_add s (step seg)) [] segs)"

definition isStepVisible :: "int js_set \<Rightarrow> int \<Rightarrow> bool" where
  "isStepVisible hidden stp = (\<not> Set_has hidden stp)"

text \<open>\<open>toggleStep\<close> is a functional update of the state: it copies \<open>prev\<close>.\<close>

definition toggleStep_update :: "int \<Rightarrow> bool \<Rightarrow> int js_set \<Rightarrow> int js_set" where
  "toggleStep_update stp on prev =
     (let next = Set_new prev in
      if on then Set_delete next stp else Set_add next stp)"

definition toggleStep :: "int \<Rightarrow> bool \<Rightarrow> PageState \<Rightarrow> PageState" where
  "toggleStep stp on st = st\<lparr>hiddenSteps := toggleStep_update stp on (hiddenSteps st)\<rparr>"

definition toggleAllSteps :: "(string \<times> TestDef) list \<Rightarrow> bool \<Rightarrow> PageState \<Rightarrow> PageState" where
  "toggleAllSteps tests on st =
     (if on then st\<lparr>hiddenSteps := Set_new []\<rparr>
      else st\<lparr>hiddenSteps :=
        Set_new (stepsInSegments (segmentsOf (activeTest tests (activeTestId st))))\<rparr>)"

text \<open>
  Selecting a test: the \<open>onChange\<close> handler of the select box calls
  \<open>setActiveTestId\<close>; after the render that follows, React runs the effect whose
  dependency is \<open>activeTestId\<close> when that value differs from the one of the render
  before, and the effect sets \<open>hiddenSteps\<close> to a new empty \<open>Set\<close>.
  \<open>selectTest\<close> is the state reached when the effect has run.
\<close>

definition setActiveTestId :: "string \<Rightarrow> PageState \<Rightarrow> PageState" where
  "setActiveTestId tid st = st\<lparr>activeTestId := tid\<rparr>"

definition resetEffect :: "string \<Rightarrow> PageState \<Rightarrow> PageState" where
  "resetEffect previousId st =
     (if activeTestId st \<noteq> previousId then st\<lparr>hiddenSteps := Set_new []\<rparr> else st)"

definition selectTest :: "string \<Rightarrow> PageState \<Rightarrow> PageState" where
  "selectTest tid st = resetEffect (activeTestId st) (setActiveTestId tid st)"

text \<open>A user interaction with the visibility controls, and a run of several.\<close>

datatype Action = Toggle int bool | ToggleAll bool | Select string

fun perform :: "(string \<times> TestDef) list \<Rightarrow> PageState \<Rightarrow> Action \<Rightarrow> PageState" where
  "perform tests st (Toggle stp on) = toggleStep stp on st"
| "perform tests st (ToggleAll on) = toggleAllSteps tests on st"
| "perform tests st (Select tid) = selectTest tid st"

definition performAll :: "(string \<times> TestDef) list \<Rightarrow> PageState \<Rightarrow> Action list \<Rightarrow> PageState" where
  "performAll tests st acts = foldl (perform tests) st acts"

section \<open>Rendering the page\<close>

text \<open>The letters: \<open>LETTERS.map\<close> over \<open>labelPos\<close>.\<close>

fun drawLetters :: "string list \<Rightarrow> error + TextEl list" where
  "drawLetters [] = Inr []"
| "drawLetters (i # ids) =
     (case labelPos i of
        Inl e \<Rightarrow> Inl e
      | Inr (lx, ly, anc) \<Rightarrow>
          (case drawLetters ids of
             Inl e \<Rightarrow> Inl e
           | Inr ts \<Rightarrow>
               Inr (\<lparr>text_x = Xpx lx, text_y = Ypx ly, textAnchor = anc, content = i,
                     center = isCenterLetter i\<rparr> # ts)))"

text \<open>
  The path: \<open>segments.map((seg, i) => isStepVisible(seg.step) ? <DrawSegment .../> : null)\<close>
  builds the children of the group, one for each segment in the order of the list: a
  \<open>DrawSegment\<close> element or \<open>null\<close>. React then renders the children in order; a
  \<open>null\<close> child and a component that returns \<open>null\<close> draw nothing, and an error
  thrown by a component aborts the render.
\<close>

definition pathChildren :: "int js_set \<Rightarrow> Segment list \<Rightarrow> Segment option list" where
  "pathChildren hidden segs =
     map (\<lambda>seg. if isStepVisible hidden (step seg) then Some seg else None) segs"

fun renderChildren :: "Segment option list \<Rightarrow> error + svg option list" where
  "renderChildren [] = Inr []"
| "renderChildren (None # cs) =
     (case renderChildren cs of Inl e \<Rightarrow> Inl e | Inr ds \<Rightarrow> Inr (None # ds))"
| "renderChildren (Some seg # cs) =
     (case DrawSegment seg of
        Inl e \<Rightarrow> Inl e
      | Inr d \<Rightarrow> (case renderChildren cs of Inl e \<Rightarrow> Inl e | Inr ds \<Rightarrow> Inr (d # ds)))"

definition drawPath :: "int js_set \<Rightarrow> Segment list \<Rightarrow> error + svg option list" where
  "drawPath hidden segs = renderChildren (pathChildren hidden segs)"

record Diagram =
  labels :: "TextEl list"
  path :: "svg option list"
  tbody :: "TableRow list"

definition Page :: "(string \<times> TestDef) list \<Rightarrow> PageState \<Rightarrow> error + Diagram" where
  "Page tests st =
     (let t = activeTest tests (activeTestId st) in
      case drawLetters LETTERS of
        Inl e \<Rightarrow> Inl e
      | Inr ls \<Rightarrow>
          (case drawPath (hiddenSteps st) (segmentsOf t) of
             Inl e \<Rightarrow> Inl e
           | Inr p \<Rightarrow>
               (case StepsTable4Col (stepRows t) (isStepVisible (hiddenSteps st)) of
                  Inl e \<Rightarrow> Inl e
                | Inr tb \<Rightarrow> Inr \<lparr>labels = ls, path = p, tbody = tb\<rparr>)))"


section \<open>Grouping by first occurrence\<close>

text \<open>
  The distinct values of a list in the order of their first occurrence, and the groups
  of the table as the specification words them: one group for each distinct step, in
  that order, holding every row of the step.
\<close>

fun first_seen :: "'a list \<Rightarrow> 'a list" where
  "first_seen [] = []"
| "first_seen (x # xs) = x # first_seen (removeAll x xs)"

definition groups_spec :: "StepRow list \<Rightarrow> Group list" where
  "groups_spec rws =
     map (\<lambda>s. \<lparr>g_step = s, g_rows = Some (filter (\<lambda>rw. row_step rw = s) rws)\<rparr>)
       (first_seen (map row_step rws))"

section \<open>Properties of binary64 rounding\<close>

lemma bitlen_eqI: "0 \<le> k \<Longrightarrow> 2 ^ nat k \<le> n \<Longrightarrow> n < 2 ^ nat (k + 1) \<Longrightarrow> bitlen n = k + 1"
proof -
  assume k: "0 \<le> k" and lo: "2 ^ nat k \<le> n" and hi: "n < 2 ^ nat (k + 1)"
  have "bitlen n \<le> k + 1"
    using k hi by (simp add: bitlen_le_iff_power)
  moreover have "k + 1 \<le> bitlen n"
    using k lo by (simp add: bitlen_ge_iff_power nat_add_distrib)
  ultimately show ?thesis by simp
qed

lemma ilog2_unique:
  assumes q: "0 < q" and lo: "2 powi k \<le> q" and hi: "q < 2 powi (k + 1)"
  shows "ilog2 q = k"
proof (cases "1 \<le> q")
  case True
  have k: "0 \<le> k"
  proof (rule ccontr)
    assume "\<not> 0 \<le> k"
    then have "k + 1 \<le> 0" by simp
    then have "(2::rat) powi (k + 1) \<le> 2 powi 0"
      by (intro power_int_increasing) simp_all
    with hi True show False by simp
  qed
  have p1: "(2::rat) powi k = of_int (2 ^ nat k)"
    using k by (simp add: power_int_nonneg_exp)
  have p2: "(2::rat) powi (k + 1) = of_int (2 ^ nat (k + 1))"
    using k by (simp add: power_int_nonneg_exp)
  have "2 ^ nat k \<le> \<lfloor>q\<rfloor>"
    using lo unfolding p1 by (simp add: le_floor_iff)
  moreover have "\<lfloor>q\<rfloor> < 2 ^ nat (k + 1)"
    using hi unfolding p2 by (simp add: floor_less_iff)
  ultimately have "bitlen \<lfloor>q\<rfloor> = k + 1"
    using k by (intro bitlen_eqI)
  with True show ?thesis by (simp add: ilog2_def)
next
  case False
  then have q1: "q < 1" by simp
  have k: "k < 0"
  proof (rule ccontr)
    assume "\<not> k < 0"
    then have "(2::rat) powi 0 \<le> 2 powi k"
      by (intro power_int_increasing) simp_all
    with lo q1 show False by simp
  qed
  define j where "j = - k - 1"
  have j: "0 \<le> j" using k by (simp add: j_def)
  have kj: "k = - (j + 1)" "k + 1 = - j" by (simp_all add: j_def)
  have lo': "1 / q \<le> 2 powi (j + 1)"
  proof -
    have "(2::rat) powi k = inverse (2 powi (j + 1))"
      unfolding kj(1) by (rule power_int_minus)
    then have e: "1 / (2::rat) powi k = 2 powi (j + 1)"
      by (simp add: divide_inverse)
    have "1 / q \<le> 1 / 2 powi k"
      using lo q by (intro divide_left_mono) simp_all
    then show ?thesis unfolding e .
  qed
  have hi': "2 powi j < 1 / q"
  proof -
    have "(2::rat) powi (k + 1) = inverse (2 powi j)"
      unfolding kj(2) by (rule power_int_minus)
    then have e: "1 / (2::rat) powi (k + 1) = 2 powi j"
      by (simp add: divide_inverse)
    have "1 / 2 powi (k + 1) < 1 / q"
      using hi q by (intro divide_strict_left_mono) simp_all
    then show ?thesis unfolding e .
  qed
  have p1: "(2::rat) powi j = of_int (2 ^ nat j)"
    using j by (simp add: power_int_nonneg_exp)
  have p2: "(2::rat) powi (j + 1) = of_int (2 ^ nat (j + 1))"
    using j by (simp add: power_int_nonneg_exp)
  have "\<lceil>1 / q\<rceil> \<le> 2 ^ nat (j + 1)"
    using lo' unfolding p2 by (simp add: ceiling_le_iff)
  then have a: "\<lceil>1 / q\<rceil> - 1 < 2 ^ nat (j + 1)" by simp
  have "2 ^ nat j < \<lceil>1 / q\<rceil>"
    using hi' unfolding p1 by (simp add: less_ceiling_iff)
  then have b: "2 ^ nat j \<le> \<lceil>1 / q\<rceil> - 1" by simp
  have "bitlen (\<lceil>1 / q\<rceil> - 1) = j + 1"
    using j b a by (intro bitlen_eqI)
  with False show ?thesis by (simp add: ilog2_def kj)
qed


lemma round_half_even_of_int: "round_half_even (of_int z) = z"
  by (simp add: round_half_even_def)

lemma round_half_even_le: "x \<le> of_int z \<Longrightarrow> round_half_even x \<le> z"
proof -
  assume a: "x \<le> of_int z"
  have f: "\<lfloor>x\<rfloor> \<le> z" using a by (simp add: floor_le_iff) 
  show ?thesis
  proof (cases "\<lfloor>x\<rfloor> = z")
    case True
    then have "x - of_int \<lfloor>x\<rfloor> \<le> 0" using a by simp
    then show ?thesis using True by (simp add: round_half_even_def Let_def)
  next
    case False
    with f have "\<lfloor>x\<rfloor> + 1 \<le> z" by simp
    then show ?thesis using f by (simp add: round_half_even_def Let_def)
  qed
qed

lemma round_half_even_ge: "of_int z \<le> x \<Longrightarrow> z \<le> round_half_even x"
proof -
  assume "of_int z \<le> x"
  then have "z \<le> \<lfloor>x\<rfloor>" by (simp add: le_floor_iff)
  then show ?thesis by (simp add: round_half_even_def Let_def)
qed

lemma binary64_normal:
  assumes e: "- 1074 \<le> e" "e \<le> 970"
    and lo: "2 powi (e + 52) \<le> \<bar>q\<bar>" and hi: "\<bar>q\<bar> < 2 powi (e + 53)"
  shows "binary64 q = Fin (of_int (round_half_even (q / 2 powi e)) * 2 powi e)"
proof -
  have q0: "q \<noteq> 0"
  proof
    assume "q = 0"
    with lo have "(2::rat) powi (e + 52) \<le> 0" by simp
    moreover have "(0::rat) < 2 powi (e + 52)" by simp
    ultimately show False by simp
  qed
  have "ilog2 \<bar>q\<bar> = e + 52"
    using q0 lo hi by (intro ilog2_unique) (simp_all add: add.commute add.left_commute)
  then have ex: "max (ilog2 \<bar>q\<bar> - 52) (- 1074) = e" using e by simp
  define m where "m = round_half_even (q / 2 powi e)"
  have pe: "(0::rat) < 2 powi e" by simp
  have split: "(2::rat) powi (e + 53) = 2 ^ 53 * 2 powi e"
    by (simp add: power_int_add)
  define x where "x = q / 2 powi e"
  have "\<bar>x\<bar> \<le> 2 ^ 53"
    using hi pe unfolding split x_def by (simp add: abs_divide field_simps)
  then have "x \<le> of_int (2 ^ 53)" "of_int (- (2 ^ 53)) \<le> x"
    by (simp_all add: abs_le_iff)
  then have xb: "q / 2 powi e \<le> of_int (2 ^ 53)" "of_int (- (2 ^ 53)) \<le> q / 2 powi e"
    unfolding x_def .
  have mb: "m \<le> 2 ^ 53" "- (2 ^ 53) \<le> m"
    unfolding m_def
    using round_half_even_le [OF xb(1)] round_half_even_ge [OF xb(2)] by simp_all
  have "(2::rat) powi e \<le> 2 powi 970"
    using e by (intro power_int_increasing) simp_all
  then have pe970: "(2::rat) powi e \<le> 2 ^ 970" by simp
  have "\<bar>of_int m * (2::rat) powi e\<bar> \<le> 2 ^ 53 * 2 ^ 970"
  proof -
    have "\<bar>of_int m :: rat\<bar> \<le> 2 ^ 53"
      using mb by (simp add: abs_le_iff)
    then have "\<bar>of_int m :: rat\<bar> * 2 powi e \<le> 2 ^ 53 * 2 ^ 970"
      using pe970 by (intro mult_mono) simp_all
    then show ?thesis by (simp add: abs_mult)
  qed
  also have "(2::rat) ^ 53 * 2 ^ 970 < 2 ^ 1024"
    by (simp add: power_add [symmetric])
  finally have "\<bar>of_int m * (2::rat) powi e\<bar> < 2 ^ 1024" .
  then have "\<not> 2 ^ 1024 \<le> of_int m * (2::rat) powi e" "\<not> of_int m * (2::rat) powi e \<le> - (2 ^ 1024)"
    by (simp_all add: abs_less_iff)
  then show ?thesis
    using q0 ex by (simp add: binary64_def Let_def m_def)
qed


lemma binary64_of_int:
  assumes k: "\<bar>k\<bar> < 2 ^ 53"
  shows "binary64 (of_int k) = Fin (of_int k)"
proof (cases "k = 0")
  case True
  then show ?thesis by (simp add: binary64_def)
next
  case False
  define b where "b = bitlen \<bar>k\<bar>"
  define e where "e = b - 53"
  have pos: "0 < \<bar>k\<bar>" using False by simp
  have b1: "1 \<le> b"
    using pos unfolding b_def by (simp add: bitlen_ge_iff_power)
  have b53: "b \<le> 53"
    using k unfolding b_def by (simp add: bitlen_le_iff_power)
  have bb: "2 ^ nat (b - 1) \<le> \<bar>k\<bar>" "\<bar>k\<bar> < 2 ^ nat b"
    using bitlen_bounds [OF pos] unfolding b_def by simp_all
  have lo: "2 powi (e + 52) \<le> \<bar>rat_of_int k\<bar>"
  proof -
    have "(2::rat) powi (e + 52) = of_int (2 ^ nat (b - 1))"
      using b1 by (simp add: e_def power_int_nonneg_exp)
    also have "\<dots> \<le> of_int \<bar>k\<bar>"
      using bb(1) by (simp only: of_int_le_iff)
    finally show ?thesis by simp
  qed
  have hi: "\<bar>rat_of_int k\<bar> < 2 powi (e + 53)"
  proof -
    have "\<bar>rat_of_int k\<bar> = of_int \<bar>k\<bar>" by simp
    also have "\<dots> < of_int (2 ^ nat b)"
      using bb(2) by (simp only: of_int_less_iff)
    also have "\<dots> = 2 powi (e + 53)"
      using b1 by (simp add: e_def power_int_nonneg_exp)
    finally show ?thesis .
  qed
  have e: "- 1074 \<le> e" "e \<le> 970" "e \<le> 0"
    using b1 b53 by (simp_all add: e_def)
  have "(2::rat) powi e = inverse (2 powi (- e))"
    using power_int_minus [of "2::rat" "- e"] by simp
  also have "(2::rat) powi (- e) = of_int (2 ^ nat (- e))"
    using e(3) by (simp add: power_int_nonneg_exp)
  finally have pe: "(2::rat) powi e = inverse (of_int (2 ^ nat (- e)))" .
  have quot: "rat_of_int k / 2 powi e = of_int (k * 2 ^ nat (- e))"
    unfolding pe by (simp add: divide_inverse)
  have "binary64 (of_int k) =
      Fin (of_int (round_half_even (rat_of_int k / 2 powi e)) * 2 powi e)"
    using e(1,2) lo hi by (rule binary64_normal)
  also have "of_int (round_half_even (rat_of_int k / 2 powi e)) * (2::rat) powi e = of_int k"
    unfolding quot round_half_even_of_int unfolding pe by simp
  finally show ?thesis .
qed


lemma round_half_even_eqI:
  assumes "\<bar>x - of_int z\<bar> < 1 / 2"
  shows "round_half_even x = z"
proof -
  have lo: "of_int z - 1 / 2 < x" and hi: "x < of_int z + 1 / 2"
    using assms by linarith+
  show ?thesis
  proof (cases "of_int z \<le> x")
    case True
    have "x < of_int z + 1" using hi by linarith
    with True have f: "\<lfloor>x\<rfloor> = z" by (simp add: floor_unique)
    have "x - of_int z < 1 / 2" using hi by linarith
    then show ?thesis
      unfolding round_half_even_def Let_def f by simp
  next
    case False
    have "of_int (z - 1) \<le> x" "x < of_int (z - 1) + 1"
      using lo False by simp_all
    then have f: "\<lfloor>x\<rfloor> = z - 1" by (rule floor_unique)
    have "1 / 2 < x - of_int (z - 1)" using lo by simp
    then have "\<not> x - of_int (z - 1) < 1 / 2" by linarith
    then show ?thesis
      unfolding round_half_even_def Let_def f using \<open>1 / 2 < x - of_int (z - 1)\<close> by simp
  qed
qed

section \<open>Properties of the containers\<close>

lemma set_Set_add: "set (Set_add s v) = insert v (set s)"
  by (auto simp: Set_add_def Set_has_def)

lemma distinct_Set_add: "distinct s \<Longrightarrow> distinct (Set_add s v)"
  by (simp add: Set_add_def Set_has_def)

lemma set_Set_delete: "set (Set_delete s v) = set s - {v}"
  by (auto simp: Set_delete_def)

lemma distinct_Set_delete: "distinct s \<Longrightarrow> distinct (Set_delete s v)"
  by (simp add: Set_delete_def distinct_removeAll)

lemma foldl_Set_add_set: "set (foldl Set_add acc xs) = set acc \<union> set xs"
  by (induction xs arbitrary: acc) (auto simp: set_Set_add)

lemma foldl_Set_add_distinct: "distinct acc \<Longrightarrow> distinct (foldl Set_add acc xs)"
  by (induction xs arbitrary: acc) (auto simp: distinct_Set_add)

lemma set_Set_new: "set (Set_new xs) = set xs"
  by (simp add: Set_new_def foldl_Set_add_set)

lemma distinct_Set_new: "distinct (Set_new xs)"
  by (simp add: Set_new_def foldl_Set_add_distinct)

lemma foldl_Set_add_id: "distinct xs \<Longrightarrow> set acc \<inter> set xs = {} \<Longrightarrow> foldl Set_add acc xs = acc @ xs"
  by (induction xs arbitrary: acc) (auto simp: Set_add_def Set_has_def)

lemma Set_new_distinct_id: "distinct xs \<Longrightarrow> Set_new xs = xs"
  using foldl_Set_add_id [of xs "[]"] by (simp add: Set_new_def)

lemma foldl_step_set:
  "set (foldl (\<lambda>s seg. Set_add s (step seg)) acc segs) = set acc \<union> step ` set segs"
  by (induction segs arbitrary: acc) (auto simp: set_Set_add)

lemma set_stepsInSegments: "set (stepsInSegments segs) = step ` set segs"
  by (simp add: stepsInSegments_def foldl_step_set)

section \<open>Properties of the arena geometry\<close>

lemma binary64_numeral:
  "numeral n < (2::int) ^ 53 \<Longrightarrow> binary64 (numeral n) = Fin (numeral n)"
  using binary64_of_int [of "numeral n"] by simp

lemma num_add_of_int:
  "\<bar>a + b\<bar> < 2 ^ 53 \<Longrightarrow> num_add (Fin (of_int a)) (Fin (of_int b)) = Fin (of_int (a + b))"
  using binary64_of_int [of "a + b"] by simp

lemma half_width: "num_div ARENA_W (Fin 2) = Fin 100"
  by (simp add: ARENA_W_def binary64_numeral)

lemma binary64_3_20: "binary64 (3 / 20) = Fin (5404319552844595 / 36028797018963968)"
proof -
  have "binary64 (3 / 20) = Fin (of_int (round_half_even ((3 / 20) / 2 powi (- 55))) * 2 powi (- 55))"
    by (rule binary64_normal) simp_all
  also have "round_half_even ((3 / 20) / 2 powi (- 55)) = 5404319552844595"
    by (rule round_half_even_eqI) simp
  finally show ?thesis by simp
qed

lemma binary64_17_20: "binary64 (17 / 20) = Fin (7656119366529843 / 9007199254740992)"
proof -
  have "binary64 (17 / 20) = Fin (of_int (round_half_even ((17 / 20) / 2 powi (- 53))) * 2 powi (- 53))"
    by (rule binary64_normal) simp_all
  also have "round_half_even ((17 / 20) / 2 powi (- 53)) = 7656119366529843"
    by (rule round_half_even_eqI) simp
  finally show ?thesis by simp
qed

lemma binary64_1_2: "binary64 (1 / 2) = Fin (1 / 2)"
proof -
  have "binary64 (1 / 2) = Fin (of_int (round_half_even ((1 / 2) / 2 powi (- 53))) * 2 powi (- 53))"
    by (rule binary64_normal) simp_all
  also have "round_half_even ((1 / 2) / 2 powi (- 53)) = 4503599627370496"
    by (rule round_half_even_eqI) simp
  finally show ?thesis by simp
qed

lemma Y_TOP_6: "Y_TOP_6 = Fin 60"
proof -
  have "binary64 (5404319552844595 / 36028797018963968 * 400) =
      Fin (of_int (round_half_even ((5404319552844595 / 36028797018963968 * 400) / 2 powi (- 47))) * 2 powi (- 47))"
    by (rule binary64_normal) simp_all
  also have "round_half_even ((5404319552844595 / 36028797018963968 * 400) / 2 powi (- 47)) = 8444249301319680"
    by (rule round_half_even_eqI) simp
  finally show ?thesis
    by (simp add: Y_TOP_6_def ARENA_H_def binary64_3_20)
qed

lemma Y_MID_20: "Y_MID_20 = Fin 200"
  by (simp add: Y_MID_20_def ARENA_H_def binary64_1_2 binary64_numeral)

lemma Y_BOT_34: "Y_BOT_34 = Fin 340"
proof -
  have "binary64 (7656119366529843 / 9007199254740992 * 400) =
      Fin (of_int (round_half_even ((7656119366529843 / 9007199254740992 * 400) / 2 powi (- 44))) * 2 powi (- 44))"
    by (rule binary64_normal) simp_all
  also have "round_half_even ((7656119366529843 / 9007199254740992 * 400) / 2 powi (- 44)) = 5981343255101440"
    by (rule round_half_even_eqI) simp
  finally show ?thesis
    by (simp add: Y_BOT_34_def ARENA_H_def binary64_17_20)
qed

lemma geom_values:
  "geom =
    [(''C'', (Fin 100, Fin 0)), (''A'', (Fin 100, Fin 400)),
     (''K'', (Fin 0, Fin 340)), (''E'', (Fin 0, Fin 200)), (''H'', (Fin 0, Fin 60)),
     (''F'', (Fin 200, Fin 340)), (''B'', (Fin 200, Fin 200)), (''M'', (Fin 200, Fin 60)),
     (''G'', (Fin 100, Fin 60)), (''X'', (Fin 100, Fin 200)), (''D'', (Fin 100, Fin 340))]"
  by (simp add: geom_def Y_TOP_6 Y_MID_20 Y_BOT_34 ARENA_W_def ARENA_H_def binary64_numeral)

lemma binary64_tenth: "binary64 (1 / 10) = Fin (3602879701896397 / 36028797018963968)"
proof -
  have "binary64 (1 / 10) = Fin (of_int (round_half_even ((1 / 10) / 2 powi (- 56))) * 2 powi (- 56))"
    by (rule binary64_normal) simp_all
  also have "round_half_even ((1 / 10) / 2 powi (- 56)) = 7205759403792794"
    by (rule round_half_even_eqI) simp
  finally show ?thesis by simp
qed

lemma Xpx_tenth:
  "Xpx (Fin (3602879701896397 / 36028797018963968)) = Fin (3391773469363405 / 140737488355328)"
proof -
  have "binary64 (3602879701896397 / 36028797018963968 + 24) =
    Fin (of_int (round_half_even ((3602879701896397 / 36028797018963968 + 24) / 2 powi (- 48))) * 2 powi (- 48))"
    by (rule binary64_normal) simp_all
  also have "round_half_even ((3602879701896397 / 36028797018963968 + 24) / 2 powi (- 48)) = 6783546938726810"
    by (rule round_half_even_eqI) simp
  finally show ?thesis by (simp add: Xpx_def PAD_def)
qed

lemma back_tenth:
  "num_sub (Fin (3391773469363405 / 140737488355328)) PAD = Fin (14073748835533 / 140737488355328)"
proof -
  have "binary64 (3391773469363405 / 140737488355328 - 24) =
    Fin (of_int (round_half_even ((3391773469363405 / 140737488355328 - 24) / 2 powi (- 56))) * 2 powi (- 56))"
    by (rule binary64_normal) simp_all
  also have "round_half_even ((3391773469363405 / 140737488355328 - 24) / 2 powi (- 56)) = 7205759403792896"
    by (rule round_half_even_eqI) simp
  finally show ?thesis by (simp add: num_sub_def PAD_def)
qed

lemma project_int:
  assumes "\<bar>n\<bar> < 2 ^ 52"
  shows "num_add (Fin (of_int n)) PAD = Fin (of_int (n + 24))"
    and "num_sub (Fin (of_int (n + 24))) PAD = Fin (of_int n)"
proof -
  have a: "\<bar>n + 24\<bar> < 2 ^ 53" and b: "\<bar>n\<bar> < 2 ^ 53" using assms by simp_all
  show "num_add (Fin (of_int n)) PAD = Fin (of_int (n + 24))"
    using num_add_of_int [OF a] by (simp add: PAD_def)
  have "\<bar>(n + 24) + (- 24)\<bar> < 2 ^ 53" using b by simp
  from num_add_of_int [OF this]
  show "num_sub (Fin (of_int (n + 24))) PAD = Fin (of_int n)"
    by (simp add: num_sub_def PAD_def)
qed

lemma geom_Own_cases:
  assumes "js_get geom i = Own p"
  shows "p \<in> {(Fin 100, Fin 0), (Fin 100, Fin 400), (Fin 0, Fin 340), (Fin 0, Fin 200),
    (Fin 0, Fin 60), (Fin 200, Fin 340), (Fin 200, Fin 200), (Fin 200, Fin 60),
    (Fin 100, Fin 60), (Fin 100, Fin 200), (Fin 100, Fin 340)}"
  using assms unfolding js_get_def geom_values
  by (auto split: option.splits if_splits)

lemma roundtrip_values:
  "num_sub (Xpx (Fin 0)) PAD = Fin 0" "num_sub (Xpx (Fin 100)) PAD = Fin 100"
  "num_sub (Xpx (Fin 200)) PAD = Fin 200"
  "num_sub (Ypx (Fin 0)) PAD = Fin 0" "num_sub (Ypx (Fin 60)) PAD = Fin 60"
  "num_sub (Ypx (Fin 200)) PAD = Fin 200" "num_sub (Ypx (Fin 340)) PAD = Fin 340"
  "num_sub (Ypx (Fin 400)) PAD = Fin 400"
  using project_int [of 0] project_int [of 100] project_int [of 200] project_int [of 60]
    project_int [of 340] project_int [of 400]
  by (simp_all add: Xpx_def Ypx_def)

section \<open>Properties of the visibility controller\<close>

lemma set_toggleStep_update:
  "set (toggleStep_update s b h) = (if b then set h - {s} else insert s (set h))"
  by (simp add: toggleStep_update_def Let_def set_Set_delete set_Set_add set_Set_new)

lemma distinct_toggleStep_update: "distinct (toggleStep_update s b h)"
  by (simp add: toggleStep_update_def Let_def distinct_Set_delete distinct_Set_add distinct_Set_new)

lemma toggleStep_update_idem:
  "toggleStep_update s b (toggleStep_update s b h) = toggleStep_update s b h"
proof -
  define h1 where "h1 = toggleStep_update s b h"
  have d: "distinct h1" unfolding h1_def by (rule distinct_toggleStep_update)
  have m: "s \<in> set h1 \<longleftrightarrow> \<not> b" unfolding h1_def by (simp add: set_toggleStep_update)
  have "toggleStep_update s b h1 = h1"
    using d m by (cases b) (simp_all add: toggleStep_update_def Let_def Set_new_distinct_id
        Set_delete_def Set_add_def Set_has_def)
  then show ?thesis unfolding h1_def .
qed

lemma hidden_after_toggles:
  "set (hiddenSteps (performAll tests st (map (\<lambda>(stp, on). Toggle stp on) ts)))
     = foldl (\<lambda>H (stp, on). if on then H - {stp} else insert stp H) (set (hiddenSteps st)) ts"
proof (induction ts arbitrary: st)
  case Nil
  show ?case by (simp add: performAll_def)
next
  case (Cons t ts)
  obtain stp on where t: "t = (stp, on)" by (cases t)
  have "set (hiddenSteps (performAll tests st (map (\<lambda>(stp, on). Toggle stp on) (t # ts))))
      = set (hiddenSteps (performAll tests (toggleStep stp on st)
               (map (\<lambda>(stp, on). Toggle stp on) ts)))"
    by (simp add: performAll_def t)
  also have "\<dots> = foldl (\<lambda>H (stp, on). if on then H - {stp} else insert stp H)
      (set (hiddenSteps (toggleStep stp on st))) ts"
    by (rule Cons.IH)
  also have "set (hiddenSteps (toggleStep stp on st))
      = (if on then set (hiddenSteps st) - {stp} else insert stp (set (hiddenSteps st)))"
    by (simp add: toggleStep_def set_toggleStep_update)
  finally show ?case by (simp add: t)
qed

lemma introA_active: "activeTest TESTS ''introA'' = Own introA"
  by (simp add: activeTest_def js_get_def TESTS_def)

lemma introA_segmentsOf: "segmentsOf (Own introA) = introA_segments"
  by (simp add: segmentsOf_def introA_def)

lemma introA_segment_steps: "map step introA_segments = [1, 2, 3, 4, 5, 6, 7, 8]"
  by (simp add: introA_segments_def line_def circle_def)

lemma initialState_TESTS: "initialState TESTS = \<lparr>activeTestId = ''introA'', hiddenSteps = []\<rparr>"
  by (simp add: initialState_def defaultTestId_def testIds_def Object_keys_def TESTS_def)

section \<open>Properties of the table grouping\<close>

lemma set_first_seen: "set (first_seen xs) = set xs"
  by (induction xs rule: first_seen.induct) auto

lemma distinct_first_seen: "distinct (first_seen xs)"
  by (induction xs rule: first_seen.induct) (auto simp: set_first_seen)

lemma first_seen_snoc:
  "first_seen (xs @ [x]) = (if x \<in> set xs then first_seen xs else first_seen xs @ [x])"
  by (induction xs rule: first_seen.induct) auto

lemma Map_has_tabulate: "Map_has (map (\<lambda>s. (s, f s)) ks) k = (k \<in> set ks)"
  by (auto simp: Map_has_def image_iff)

lemma Map_get_tabulate:
  "Map_get (map (\<lambda>s. (s, f s)) ks) k = (if k \<in> set ks then Some (f k) else None)"
  by (induction ks) (auto simp: Map_get_def)

lemma Map_get_snoc_new:
  "k \<notin> set ks \<Longrightarrow> Map_get (map (\<lambda>s. (s, f s)) ks @ [(k, v)]) k = Some v"
  by (induction ks) (auto simp: Map_get_def)

lemma Map_set_tabulate_present:
  "k \<in> set ks \<Longrightarrow>
   Map_set (map (\<lambda>s. (s, f s)) ks) k v = map (\<lambda>s. (s, if s = k then v else f s)) ks"
  by (auto simp: Map_set_def Map_has_tabulate)

lemma Map_set_tabulate_new:
  "k \<notin> set ks \<Longrightarrow>
   Map_set (map (\<lambda>s. (s, f s)) ks) k v = map (\<lambda>s. (s, f s)) ks @ [(k, v)]"
  by (simp add: Map_set_def Map_has_tabulate)

lemma Map_set_snoc_last:
  "k \<notin> set ks \<Longrightarrow>
   Map_set (map (\<lambda>s. (s, f s)) ks @ [(k, v)]) k w = map (\<lambda>s. (s, f s)) ks @ [(k, w)]"
  by (auto simp: Map_set_def Map_has_def)

lemma groupLoop_step:
  fixes pre :: "StepRow list" and r :: StepRow
  defines "G \<equiv> \<lambda>p. map (\<lambda>s. (s, filter (\<lambda>rw. row_step rw = s) p)) (first_seen (map row_step p))"
  shows "groupLoop (r # rs) (G pre) (first_seen (map row_step pre))
      = groupLoop rs (G (pre @ [r])) (first_seen (map row_step (pre @ [r])))"
proof -
  let ?k = "row_step r"
  let ?ks = "first_seen (map row_step pre)"
  have has: "Map_has (G pre) ?k = (?k \<in> set ?ks)"
    unfolding G_def by (rule Map_has_tabulate)
  show ?thesis
  proof (cases "?k \<in> set ?ks")
    case True
    then have in_pre: "?k \<in> row_step ` set pre" by (simp add: set_first_seen)
    have fs: "first_seen (map row_step (pre @ [r])) = ?ks"
      using in_pre by (simp add: first_seen_snoc)
    have get: "Map_get (G pre) ?k = Some (filter (\<lambda>rw. row_step rw = ?k) pre)"
      unfolding G_def using True by (simp add: Map_get_tabulate)
    have "Map_set (G pre) ?k (filter (\<lambda>rw. row_step rw = ?k) pre @ [r])
        = map (\<lambda>s. (s, if s = ?k then filter (\<lambda>rw. row_step rw = ?k) pre @ [r]
                          else filter (\<lambda>rw. row_step rw = s) pre)) ?ks"
      unfolding G_def using True by (rule Map_set_tabulate_present)
    also have "\<dots> = map (\<lambda>s. (s, filter (\<lambda>rw. row_step rw = s) (pre @ [r]))) ?ks"
      by (intro map_cong) auto
    also have "\<dots> = G (pre @ [r])"
      unfolding G_def fs ..
    finally have set: "Map_set (G pre) ?k (filter (\<lambda>rw. row_step rw = ?k) pre @ [r]) = G (pre @ [r])" .
    have "groupLoop (r # rs) (G pre) ?ks
        = groupLoop rs (Map_set (G pre) ?k (filter (\<lambda>rw. row_step rw = ?k) pre @ [r])) ?ks"
      using True by (simp add: has get)
    then show ?thesis unfolding set fs .
  next
    case False
    then have not_pre: "?k \<notin> row_step ` set pre" by (simp add: set_first_seen)
    have fs: "first_seen (map row_step (pre @ [r])) = ?ks @ [?k]"
      using not_pre by (simp add: first_seen_snoc)
    have "\<forall>rw \<in> set pre. row_step rw \<noteq> ?k"
      using not_pre by (metis imageI)
    then have empty: "filter (\<lambda>rw. row_step rw = ?k) pre = []"
      by (simp add: filter_empty_conv)
    have new: "Map_set (G pre) ?k [] = G pre @ [(?k, [])]"
      unfolding G_def using False by (rule Map_set_tabulate_new)
    have get: "Map_get (G pre @ [(?k, [])]) ?k = Some []"
      unfolding G_def using False by (rule Map_get_snoc_new)
    have upd: "Map_set (G pre @ [(?k, [])]) ?k ([] @ [r]) = G pre @ [(?k, [] @ [r])]"
      unfolding G_def using False by (rule Map_set_snoc_last)
    have old: "map (\<lambda>s. (s, filter (\<lambda>rw. row_step rw = s) (pre @ [r]))) ?ks = G pre"
      unfolding G_def using False by (intro map_cong) auto
    have "G (pre @ [r]) = map (\<lambda>s. (s, filter (\<lambda>rw. row_step rw = s) (pre @ [r]))) (?ks @ [?k])"
      unfolding G_def fs ..
    also have "\<dots> = map (\<lambda>s. (s, filter (\<lambda>rw. row_step rw = s) (pre @ [r]))) ?ks
        @ [(?k, [] @ [r])]"
      by (simp add: empty)
    finally have "G (pre @ [r]) = G pre @ [(?k, [] @ [r])]"
      unfolding old .
    with upd have set: "Map_set (G pre @ [(?k, [])]) ?k ([] @ [r]) = G (pre @ [r])"
      by simp
    have "groupLoop (r # rs) (G pre) ?ks
        = groupLoop rs (Map_set (G pre @ [(?k, [])]) ?k ([] @ [r])) (?ks @ [?k])"
      using False by (simp add: has new get)
    then show ?thesis unfolding set fs .
  qed
qed

lemma groupLoop_invariant:
  "groupLoop rs
      (map (\<lambda>s. (s, filter (\<lambda>rw. row_step rw = s) pre)) (first_seen (map row_step pre)))
      (first_seen (map row_step pre))
   = Inr (map (\<lambda>s. (s, filter (\<lambda>rw. row_step rw = s) (pre @ rs)))
            (first_seen (map row_step (pre @ rs))),
          first_seen (map row_step (pre @ rs)))"
proof (induction rs arbitrary: pre)
  case Nil
  show ?case by simp
next
  case (Cons r rs)
  show ?case
    unfolding groupLoop_step using Cons.IH [of "pre @ [r]"] by simp
qed

lemma groupByStep_spec: "groupByStep rws = Inr (groups_spec rws)"
proof -
  have "groupLoop rws [] [] =
      Inr (map (\<lambda>s. (s, filter (\<lambda>rw. row_step rw = s) rws)) (first_seen (map row_step rws)),
           first_seen (map row_step rws))"
    using groupLoop_invariant [of rws "[]"] by simp
  then show ?thesis
    by (simp add: groupByStep_def groups_spec_def Map_get_tabulate)
qed


lemma flatMapE_total:
  "(\<And>x. x \<in> set xs \<Longrightarrow> f x = Inr (g x)) \<Longrightarrow> flatMapE f xs = Inr (concat (map g xs))"
  by (induction xs) simp_all

lemma StepsTable4Col_spec:
  "StepsTable4Col rws vis =
     Inr (concat (map (\<lambda>s. map (\<lambda>(idx, rw).
                     tableRow vis s (length (filter (\<lambda>rw. row_step rw = s) rws)) idx rw)
                   (enumerate 0 (filter (\<lambda>rw. row_step rw = s) rws)))
            (first_seen (map row_step rws))))"
proof -
  have "flatMapE (groupTrs vis) (groups_spec rws) =
      Inr (concat (map (\<lambda>g. map (\<lambda>(idx, rw).
                     tableRow vis (g_step g) (length (filter (\<lambda>rw. row_step rw = g_step g) rws)) idx rw)
                   (enumerate 0 (filter (\<lambda>rw. row_step rw = g_step g) rws)))
            (groups_spec rws)))"
    by (rule flatMapE_total) (auto simp: groups_spec_def groupTrs_def)
  then show ?thesis
    by (simp add: StepsTable4Col_def groupByStep_spec) (simp add: groups_spec_def comp_def)
qed

lemma map_filter_append:
  "List.map_filter f (xs @ ys) = List.map_filter f xs @ List.map_filter f ys"
  by (simp add: List.map_filter_def)

lemma map_filter_concat:
  "List.map_filter f (concat xss) = concat (map (List.map_filter f) xss)"
  by (induction xss) (simp_all add: map_filter_append List.map_filter_simps)

lemma checkbox_later_rows:
  "0 < k \<Longrightarrow>
   List.map_filter checkbox (map (\<lambda>(idx, rw). tableRow vis s n idx rw) (enumerate k rs)) = []"
  by (induction rs arbitrary: k) (simp_all add: List.map_filter_simps tableRow_def)

lemma checkbox_group:
  assumes "rs \<noteq> []"
  shows "List.map_filter checkbox (map (\<lambda>(idx, rw). tableRow vis s n idx rw) (enumerate 0 rs))
     = [\<lparr>rowSpan = n, checked = vis s, cb_step = s\<rparr>]"
proof (cases rs)
  case Nil
  with assms show ?thesis by simp
next
  case (Cons a list)
  have "List.map_filter checkbox
      (map (\<lambda>(idx, rw). tableRow vis s n idx rw) (enumerate (Suc 0) list)) = []"
    by (rule checkbox_later_rows) simp
  then show ?thesis
    unfolding Cons by (simp add: List.map_filter_simps tableRow_def)
qed

lemma filter_step_nonempty:
  "s \<in> row_step ` set rws \<Longrightarrow> filter (\<lambda>rw. row_step rw = s) rws \<noteq> []"
  by (auto simp: filter_empty_conv)

lemma sum_list_indicator:
  "distinct ks \<Longrightarrow> k \<in> set ks \<Longrightarrow> sum_list (map (\<lambda>s. if k = s then 1 else 0 :: nat) ks) = 1"
proof (induction ks)
  case Nil
  then show ?case by simp
next
  case (Cons a ks)
  have z: "k \<notin> set ks \<Longrightarrow> sum_list (map (\<lambda>s. if k = s then 1 else 0 :: nat) ks) = 0"
    by (induction ks) auto
  show ?case
    using Cons z by (cases "k = a") auto
qed

lemma length_groups_total:
  "distinct ks \<Longrightarrow> row_step ` set rws \<subseteq> set ks \<Longrightarrow>
   sum_list (map (\<lambda>s. length (filter (\<lambda>rw. row_step rw = s) rws)) ks) = length rws"
proof (induction rws)
  case Nil
  then show ?case by simp
next
  case (Cons r rs)
  have "sum_list (map (\<lambda>s. length (filter (\<lambda>rw. row_step rw = s) (r # rs))) ks)
      = sum_list (map (\<lambda>s. (if row_step r = s then 1 else 0)
                           + length (filter (\<lambda>rw. row_step rw = s) rs)) ks)"
    by (intro arg_cong [where f = sum_list] map_cong) auto
  also have "\<dots> = sum_list (map (\<lambda>s. if row_step r = s then 1 else 0) ks)
      + sum_list (map (\<lambda>s. length (filter (\<lambda>rw. row_step rw = s) rs)) ks)"
    by (rule sum_list_addf)
  also have "\<dots> = 1 + length rs"
    using Cons by (simp add: sum_list_indicator)
  finally show ?case by simp
qed

lemma StepsTable4Col_rows:
  "StepsTable4Col rws vis =
     Inr (concat (map (\<lambda>s. map (\<lambda>(idx, rw).
              \<lparr>tr_key = (s, idx),
               checkbox =
                 (if idx = 0
                  then Some \<lparr>rowSpan = length (filter (\<lambda>rw. row_step rw = s) rws),
                              checked = vis s, cb_step = s\<rparr>
                  else None),
               td_where = row_where rw,
               td_directive = row_directive rw,
               td_ideas = (case row_ideas rw of Some t \<Rightarrow> t | None \<Rightarrow> [])\<rparr>)
            (enumerate 0 (filter (\<lambda>rw. row_step rw = s) rws)))
          (first_seen (map row_step rws))))"
  using StepsTable4Col_spec [of rws vis] unfolding tableRow_def .

text \<open>
  Rows of one step that do not follow each other: the later row joins the group of its
  step, and the groups keep the order in which the steps first occur.
\<close>

lemma groupByStep_example:
  "map_sum id (map (\<lambda>g. (g_step g, map_option (map row_where) (g_rows g))))
     (groupByStep
       [\<lparr>row_step = 2, row_where = ''a'', row_directive = [], row_ideas = None\<rparr>,
        \<lparr>row_step = 1, row_where = ''b'', row_directive = [], row_ideas = None\<rparr>,
        \<lparr>row_step = 2, row_where = ''c'', row_directive = [], row_ideas = None\<rparr>])
   = Inr [(2, Some [''a'', ''c'']), (1, Some [''b''])]"
  by (simp add: groupByStep_def Map_has_def Map_set_def Map_get_def)

lemma StepsTable4Col_example:
  "StepsTable4Col
       [\<lparr>row_step = 2, row_where = ''a'', row_directive = ''d1'', row_ideas = Some ''i1''\<rparr>,
        \<lparr>row_step = 1, row_where = ''b'', row_directive = ''d2'', row_ideas = None\<rparr>,
        \<lparr>row_step = 2, row_where = ''c'', row_directive = ''d3'', row_ideas = None\<rparr>]
       (\<lambda>s. s \<noteq> 1)
   = Inr [\<lparr>tr_key = (2, 0),
           checkbox = Some \<lparr>rowSpan = 2, checked = True, cb_step = 2\<rparr>,
           td_where = ''a'', td_directive = ''d1'', td_ideas = ''i1''\<rparr>,
          \<lparr>tr_key = (2, 1), checkbox = None,
           td_where = ''c'', td_directive = ''d3'', td_ideas = []\<rparr>,
          \<lparr>tr_key = (1, 0),
           checkbox = Some \<lparr>rowSpan = 1, checked = False, cb_step = 1\<rparr>,
           td_where = ''b'', td_directive = ''d2'', td_ideas = []\<rparr>]"
  by (simp add: StepsTable4Col_def groupByStep_def Map_has_def Map_set_def Map_get_def
      groupTrs_def tableRow_def)

section \<open>Properties of the renderer\<close>

lemmas arena_simps = Xpx_def Ypx_def PAD_def LABEL_OFFSET_def ARENA_H_def ARENA_W_def
  binary64_numeral

lemma drawLetters_LETTERS:
  "drawLetters LETTERS =
    Inr [\<lparr>text_x = Fin 124, text_y = Fin 10, textAnchor = AnchorMiddle, content = ''C'', center = False\<rparr>,
         \<lparr>text_x = Fin 238, text_y = Fin 84, textAnchor = AnchorStart, content = ''M'', center = False\<rparr>,
         \<lparr>text_x = Fin 238, text_y = Fin 224, textAnchor = AnchorStart, content = ''B'', center = False\<rparr>,
         \<lparr>text_x = Fin 238, text_y = Fin 364, textAnchor = AnchorStart, content = ''F'', center = False\<rparr>,
         \<lparr>text_x = Fin 10, text_y = Fin 84, textAnchor = AnchorEnd, content = ''H'', center = False\<rparr>,
         \<lparr>text_x = Fin 10, text_y = Fin 224, textAnchor = AnchorEnd, content = ''E'', center = False\<rparr>,
         \<lparr>text_x = Fin 10, text_y = Fin 364, textAnchor = AnchorEnd, content = ''K'', center = False\<rparr>,
         \<lparr>text_x = Fin 124, text_y = Fin 84, textAnchor = AnchorMiddle, content = ''G'', center = True\<rparr>,
         \<lparr>text_x = Fin 124, text_y = Fin 224, textAnchor = AnchorMiddle, content = ''X'', center = True\<rparr>,
         \<lparr>text_x = Fin 124, text_y = Fin 364, textAnchor = AnchorMiddle, content = ''D'', center = True\<rparr>,
         \<lparr>text_x = Fin 124, text_y = Fin 438, textAnchor = AnchorMiddle, content = ''A'', center = False\<rparr>]"
  by (simp add: LETTERS_def labelPos_def js_get_def geom_values isCenterLetter_def arena_simps)

lemma draw_introA_segments:
  "map DrawSegment introA_segments =
    [Inr (Some (PolylineEl [(Fin 124, Fin 424), (Fin 124, Fin 224), (Fin 124, Fin 24)])),
     Inr (Some (PolylineEl [(Fin 124, Fin 24), (Fin 224, Fin 84)])),
     Inr (Some (CircleEl (Fin 124) (Fin 224) (Fin 100))),
     Inr (Some (PolylineEl [(Fin 24, Fin 364), (Fin 124, Fin 224), (Fin 224, Fin 84)])),
     Inr (Some (CircleEl (Fin 124) (Fin 224) (Fin 100))),
     Inr (Some (PolylineEl [(Fin 24, Fin 224), (Fin 124, Fin 24), (Fin 24, Fin 84)])),
     Inr (Some (PolylineEl [(Fin 24, Fin 84), (Fin 124, Fin 224), (Fin 224, Fin 364)])),
     Inr (Some (PolylineEl [(Fin 224, Fin 364), (Fin 124, Fin 424), (Fin 124, Fin 224)]))]"
  by (simp add: introA_segments_def line_def circle_def CircleAt_def js_get_def geom_values arena_simps)


lemma geom_Own_entry:
  assumes "js_get geom a = Own p"
  shows "(a, p) \<in> {(''C'', (Fin 100, Fin 0)), (''A'', (Fin 100, Fin 400)),
     (''K'', (Fin 0, Fin 340)), (''E'', (Fin 0, Fin 200)), (''H'', (Fin 0, Fin 60)),
     (''F'', (Fin 200, Fin 340)), (''B'', (Fin 200, Fin 200)), (''M'', (Fin 200, Fin 60)),
     (''G'', (Fin 100, Fin 60)), (''X'', (Fin 100, Fin 200)), (''D'', (Fin 100, Fin 340))}"
proof -
  from assms have "map_of geom a = Some p"
    by (auto simp: js_get_def split: option.splits if_splits)
  then have "(a, p) \<in> set geom" by (rule map_of_SomeD)
  then show ?thesis unfolding geom_values by simp
qed

lemma Xpx_half_width: "Xpx (num_div ARENA_W (Fin 2)) = Fin 124"
  by (simp add: arena_simps)

lemma toPoints_unknown:
  "\<exists>i\<in>set wps. js_get geom i = Undefined \<Longrightarrow>
   \<exists>i\<in>set wps. js_get geom i = Undefined \<and> toPoints wps = Inl (UnknownLetter i)"
proof (induction wps)
  case Nil
  then show ?case by simp
next
  case (Cons w wps)
  show ?case
  proof (cases "js_get geom w = Undefined")
    case True
    then show ?thesis by simp
  next
    case False
    with Cons.prems have "\<exists>i\<in>set wps. js_get geom i = Undefined" by auto
    from Cons.IH [OF this] obtain i where
      i: "i \<in> set wps" "js_get geom i = Undefined" "toPoints wps = Inl (UnknownLetter i)"
      by blast
    have "toPoints (w # wps) = Inl (UnknownLetter i)"
      using False i(3) by (cases "js_get geom w") simp_all
    with i show ?thesis by auto
  qed
qed

lemma toPoints_error:
  "toPoints wps = Inl e \<Longrightarrow> \<exists>i\<in>set wps. js_get geom i = Undefined \<and> e = UnknownLetter i"
proof (induction wps)
  case Nil
  then show ?case by simp
next
  case (Cons w wps)
  then show ?case
    by (cases "js_get geom w"; cases "toPoints wps") auto
qed

lemma DrawSegment_error:
  "DrawSegment seg = Inl e \<Longrightarrow> \<exists>i. js_get geom i = Undefined \<and> e = UnknownLetter i"
proof (cases seg)
  case (LineSeg wps l s)
  assume "DrawSegment seg = Inl e"
  with LineSeg have "toPoints wps = Inl e" by (simp split: sum.splits)
  from toPoints_error [OF this] show ?thesis by blast
next
  case (CircleSeg a d l s)
  assume "DrawSegment seg = Inl e"
  with CircleSeg show ?thesis by simp
qed

lemma renderChildren_error:
  "renderChildren cs = Inl e \<Longrightarrow> \<exists>seg. Some seg \<in> set cs \<and> DrawSegment seg = Inl e"
proof (induction cs rule: renderChildren.induct)
  case 1
  then show ?case by simp
next
  case (2 cs)
  then show ?case by (auto split: sum.splits)
next
  case (3 seg cs)
  then show ?case by (cases "DrawSegment seg") (auto split: sum.splits)
qed

lemma renderChildren_fails:
  "Some seg \<in> set cs \<Longrightarrow> DrawSegment seg = Inl e \<Longrightarrow> \<exists>e'. renderChildren cs = Inl e'"
proof (induction cs rule: renderChildren.induct)
  case 1
  then show ?case by simp
next
  case (2 cs)
  then show ?case by (auto split: sum.splits)
next
  case (3 seg' cs)
  then show ?case by (cases "DrawSegment seg'") (auto split: sum.splits)
qed

lemma Page_path_error:
  "drawPath (hiddenSteps st) (segmentsOf (activeTest tests (activeTestId st))) = Inl e \<Longrightarrow>
   Page tests st = Inl e"
  unfolding Page_def Let_def drawLetters_LETTERS by simp

lemma Page_error:
  "Page tests st = Inl e \<Longrightarrow> \<exists>i. js_get geom i = Undefined \<and> e = UnknownLetter i"
proof -
  assume a: "Page tests st = Inl e"
  then have "drawPath (hiddenSteps st) (segmentsOf (activeTest tests (activeTestId st))) = Inl e"
    unfolding Page_def Let_def drawLetters_LETTERS StepsTable4Col_spec
    by (simp split: sum.splits)
  then obtain seg where "DrawSegment seg = Inl e"
    unfolding drawPath_def using renderChildren_error by blast
  then show ?thesis by (rule DrawSegment_error)
qed

lemma StepsTable4Col_total: "\<exists>tb. StepsTable4Col rws vis = Inr tb"
  using StepsTable4Col_spec by blast

lemma Page_path:
  "map_sum id path (Page tests st)
     = drawPath (hiddenSteps st) (segmentsOf (activeTest tests (activeTestId st)))"
proof -
  obtain tb where "StepsTable4Col (stepRows (activeTest tests (activeTestId st)))
      (isStepVisible (hiddenSteps st)) = Inr tb"
    using StepsTable4Col_total by blast
  then show ?thesis
    unfolding Page_def Let_def drawLetters_LETTERS
    by (cases "drawPath (hiddenSteps st) (segmentsOf (activeTest tests (activeTestId st)))")
      simp_all
qed



lemma pathChildren_all_visible: "pathChildren [] segs = map Some segs"
  by (simp add: pathChildren_def isStepVisible_def Set_has_def)






lemma renderChildren_all:
  "map DrawSegment segs = map Inr ds \<Longrightarrow> renderChildren (map Some segs) = Inr ds"
  by (induction segs arbitrary: ds) auto

lemma introA_path_all:
  "drawPath [] introA_segments =
    Inr [Some (PolylineEl [(Fin 124, Fin 424), (Fin 124, Fin 224), (Fin 124, Fin 24)]),
         Some (PolylineEl [(Fin 124, Fin 24), (Fin 224, Fin 84)]),
         Some (CircleEl (Fin 124) (Fin 224) (Fin 100)),
         Some (PolylineEl [(Fin 24, Fin 364), (Fin 124, Fin 224), (Fin 224, Fin 84)]),
         Some (CircleEl (Fin 124) (Fin 224) (Fin 100)),
         Some (PolylineEl [(Fin 24, Fin 224), (Fin 124, Fin 24), (Fin 24, Fin 84)]),
         Some (PolylineEl [(Fin 24, Fin 84), (Fin 124, Fin 224), (Fin 224, Fin 364)]),
         Some (PolylineEl [(Fin 224, Fin 364), (Fin 124, Fin 424), (Fin 124, Fin 224)])]"
  unfolding drawPath_def pathChildren_all_visible
  by (rule renderChildren_all) (simp add: draw_introA_segments)



lemma activeTest_fallback:
  assumes "js_get tests tid = Undefined"
  shows "activeTest tests tid = (case tests of [] \<Rightarrow> Undefined | (k, d) # _ \<Rightarrow> Own d)"
proof (cases tests)
  case Nil
  then show ?thesis
    using assms by (simp add: activeTest_def testIds_def Object_keys_def js_get_def
        object_prototype_keys_def)
next
  case (Cons kd rest)
  obtain k d where kd: "kd = (k, d)" by (cases kd)
  show ?thesis
    using assms unfolding Cons kd
    by (simp add: activeTest_def testIds_def Object_keys_def) (simp add: js_get_def)
qed

lemma activeTest_default:
  "activeTest tests (defaultTestId tests) = (case tests of [] \<Rightarrow> Undefined | (k, d) # _ \<Rightarrow> Own d)"
proof (cases tests)
  case Nil
  then show ?thesis
    by (simp add: activeTest_def defaultTestId_def testIds_def Object_keys_def js_get_def
        object_prototype_keys_def)
next
  case (Cons kd rest)
  obtain k d where kd: "kd = (k, d)" by (cases kd)
  show ?thesis
    unfolding Cons kd
    by (simp add: activeTest_def defaultTestId_def testIds_def Object_keys_def js_get_def)
qed

lemma Page_depends_on_activeTest:
  "activeTest tests a = activeTest tests b \<Longrightarrow>
   Page tests \<lparr>activeTestId = a, hiddenSteps = h\<rparr> = Page tests \<lparr>activeTestId = b, hiddenSteps = h\<rparr>"
  unfolding Page_def Let_def drawLetters_LETTERS StepsTable4Col_spec
  by (simp split: sum.splits)

lemma Page_empty_store:
  "activeTest tests a = Undefined \<Longrightarrow>
   Page tests \<lparr>activeTestId = a, hiddenSteps = h\<rparr>
     = map_sum id (\<lambda>ls. \<lparr>labels = ls, path = [], tbody = []\<rparr>) (drawLetters LETTERS)"
  unfolding Page_def Let_def drawLetters_LETTERS
  by (simp add: segmentsOf_def stepRows_def drawPath_def pathChildren_def StepsTable4Col_spec)

section \<open>The step visibility controller\<close>

text \<open>
  Claim C6. For every step number \<open>s\<close>, from any state of the page and after any finite
  run of interactions with it (calls of \<open>toggle\<close>, and the bulk toggle and the test
  selection as well), \<open>isVisible(s)\<close> is true exactly when \<open>s\<close> is not a member of the
  hidden set of the state reached. After a run of calls of \<open>toggle\<close> alone, that hidden
  set is the set obtained from the initial one by removing the step of each call with
  \<open>show = true\<close> and inserting the step of each call with \<open>show = false\<close>, in order.
\<close>

theorem C6_isVisible_negates_membership:
  "isStepVisible (hiddenSteps (performAll tests st acts)) s
     = (s \<notin> set (hiddenSteps (performAll tests st acts)))
   \<and> set (hiddenSteps (performAll tests st (map (\<lambda>(stp, on). Toggle stp on) ts)))
     = foldl (\<lambda>H (stp, on). if on then H - {stp} else insert stp H) (set (hiddenSteps st)) ts"
  by (simp add: isStepVisible_def Set_has_def hidden_after_toggles)

text \<open>
  Claim C8. \<open>toggle(s, true)\<close> removes \<open>s\<close> from the hidden set, \<open>toggle(s, false)\<close>
  inserts it, and \<open>toggle\<close> is idempotent: a second call with the same arguments
  leaves the state (the \<open>Set\<close> with its insertion order) as the first call left it.
\<close>

theorem C8_toggle_idempotent:
  "set (hiddenSteps (toggleStep s True st)) = set (hiddenSteps st) - {s}
   \<and> set (hiddenSteps (toggleStep s False st)) = insert s (set (hiddenSteps st))
   \<and> toggleStep s b (toggleStep s b st) = toggleStep s b st"
  by (simp add: toggleStep_def set_toggleStep_update toggleStep_update_idem)

text \<open>
  Claim C7. When the select box changes the active test identifier, the state reached
  once React has run the effect has the new identifier and an empty hidden set, whatever
  the hidden set was before, so that every step is visible.
\<close>

theorem C7_switch_clears_hidden:
  assumes "tid \<noteq> activeTestId st"
  shows "activeTestId (selectTest tid st) = tid
    \<and> hiddenSteps (selectTest tid st) = []
    \<and> isStepVisible (hiddenSteps (selectTest tid st)) s"
  using assms
  by (simp add: selectTest_def resetEffect_def setActiveTestId_def Set_new_def
      isStepVisible_def Set_has_def)

theorem C7_switch_clears_hidden_witness:
  "''other'' \<noteq> activeTestId \<lparr>activeTestId = ''introA'', hiddenSteps = [3, 5]\<rparr>
   \<and> \<not> isStepVisible (hiddenSteps \<lparr>activeTestId = ''introA'', hiddenSteps = [3, 5]\<rparr>) 3
   \<and> hiddenSteps (selectTest ''other'' \<lparr>activeTestId = ''introA'', hiddenSteps = [3, 5]\<rparr>) = []
   \<and> isStepVisible
        (hiddenSteps (selectTest ''other'' \<lparr>activeTestId = ''introA'', hiddenSteps = [3, 5]\<rparr>)) 3"
proof -
  have h: "''other'' \<noteq> activeTestId \<lparr>activeTestId = ''introA'', hiddenSteps = [3, 5]\<rparr>"
    by simp
  show ?thesis
    using h C7_switch_clears_hidden [OF h, of 3]
    by (simp add: isStepVisible_def Set_has_def)
qed

text \<open>
  Claim C3. After \<open>setAll(false)\<close> the hidden set is exactly the set of the steps that
  occur in a segment of the active test: a step of a segment is not visible, and a step
  that occurs in no segment (one that occurs in rows only, as step 9 of the seeded test)
  is visible, so it stays visible when it was.
\<close>

theorem C3_setAll_false_hides_segment_steps:
  "set (hiddenSteps (toggleAllSteps tests False st))
      = step ` set (segmentsOf (activeTest tests (activeTestId st)))
   \<and> (s \<in> step ` set (segmentsOf (activeTest tests (activeTestId st)))
        \<longrightarrow> \<not> isStepVisible (hiddenSteps (toggleAllSteps tests False st)) s)
   \<and> (s \<notin> step ` set (segmentsOf (activeTest tests (activeTestId st)))
        \<longrightarrow> isStepVisible (hiddenSteps (toggleAllSteps tests False st)) s)"
  by (simp add: toggleAllSteps_def set_Set_new set_stepsInSegments isStepVisible_def Set_has_def)

theorem C3_setAll_false_hides_segment_steps_witness:
  "9 \<notin> step ` set (segmentsOf (activeTest TESTS (activeTestId (initialState TESTS))))
   \<and> isStepVisible (hiddenSteps (initialState TESTS)) 9
   \<and> isStepVisible (hiddenSteps (toggleAllSteps TESTS False (initialState TESTS))) 9
   \<and> 3 \<in> step ` set (segmentsOf (activeTest TESTS (activeTestId (initialState TESTS))))
   \<and> \<not> isStepVisible (hiddenSteps (toggleAllSteps TESTS False (initialState TESTS))) 3"
proof -
  have st: "step ` set (segmentsOf (activeTest TESTS (activeTestId (initialState TESTS))))
      = {1, 2, 3, 4, 5, 6, 7, 8}"
    using introA_segment_steps
    by (simp add: initialState_TESTS introA_active introA_segmentsOf flip: set_map)
  have h9: "9 \<notin> step ` set (segmentsOf (activeTest TESTS (activeTestId (initialState TESTS))))"
    and h3: "3 \<in> step ` set (segmentsOf (activeTest TESTS (activeTestId (initialState TESTS))))"
    unfolding st by simp_all
  show ?thesis
    using h9 h3
      C3_setAll_false_hides_segment_steps [of TESTS "initialState TESTS" 9]
      C3_setAll_false_hides_segment_steps [of TESTS "initialState TESTS" 3]
    by (simp add: initialState_TESTS isStepVisible_def Set_has_def)
qed

section \<open>The coordinate projector\<close>

text \<open>
  Claim C9, as the code has it. The projector adds the padding constant 24 to each
  axis and returns a number for every number. For a coordinate that is an integer of
  magnitude below \<open>2^52\<close> the addition is exact and subtracting the padding returns
  the coordinate; this holds for both coordinates of every position of the geometry
  table. (For other coordinates the binary64 addition may round: see the
  counterexample.)
\<close>

theorem C9_projector:
  "Xpx v = num_add v (Fin 24) \<and> Ypx v = num_add v (Fin 24)
   \<and> (\<bar>n\<bar> < 2 ^ 52 \<longrightarrow>
        Xpx (Fin (of_int n)) = Fin (of_int (n + 24))
        \<and> Ypx (Fin (of_int n)) = Fin (of_int (n + 24))
        \<and> num_sub (Xpx (Fin (of_int n))) PAD = Fin (of_int n)
        \<and> num_sub (Ypx (Fin (of_int n))) PAD = Fin (of_int n))
   \<and> (js_get geom i = Own p \<longrightarrow>
        (num_sub (Xpx (fst p)) PAD, num_sub (Ypx (snd p)) PAD) = p)"
proof (intro conjI impI)
  show "Xpx v = num_add v (Fin 24)" "Ypx v = num_add v (Fin 24)"
    by (simp_all add: Xpx_def Ypx_def PAD_def)
next
  assume n: "\<bar>n\<bar> < 2 ^ 52"
  show "Xpx (Fin (of_int n)) = Fin (of_int (n + 24))" "Ypx (Fin (of_int n)) = Fin (of_int (n + 24))"
    using project_int(1) [OF n] by (simp_all add: Xpx_def Ypx_def)
  show "num_sub (Xpx (Fin (of_int n))) PAD = Fin (of_int n)"
    "num_sub (Ypx (Fin (of_int n))) PAD = Fin (of_int n)"
    using project_int [OF n] by (simp_all add: Xpx_def Ypx_def)
next
  assume "js_get geom i = Own p"
  from geom_Own_cases [OF this]
  show "(num_sub (Xpx (fst p)) PAD, num_sub (Ypx (snd p)) PAD) = p"
    by (auto simp: roundtrip_values)
qed

theorem C9_projector_witness:
  "\<bar>200 :: int\<bar> < 2 ^ 52 \<and> Xpx (Fin 200) = Fin 224 \<and> num_sub (Xpx (Fin 200)) PAD = Fin 200
   \<and> js_get geom ''M'' = Own (Fin 200, Fin 60)
   \<and> (num_sub (Xpx (Fin 200)) PAD, num_sub (Ypx (Fin 60)) PAD) = (Fin 200, Fin 60)"
proof -
  have h1: "\<bar>200 :: int\<bar> < 2 ^ 52" by simp
  have h2: "js_get geom ''M'' = Own (Fin 200, Fin 60)"
    by (simp add: js_get_def geom_values)
  show ?thesis
    using h1 h2 C9_projector [of NaN 200 "''M''" "(Fin 200, Fin 60)"]
    by (simp add: num_sub_def PAD_def binary64_numeral)
qed

text \<open>
  Claim C9 as stated (the round trip is exact for every normalized point) fails at the
  point whose coordinate is the number \<open>0.1\<close>: \<open>Xpx(0.1)\<close> is the binary64 value
  nearest to \<open>24.1\<close>, and subtracting 24 from it gives \<open>0.10000000000000142\<close>.
\<close>

theorem C9_counterexample:
  "binary64 (1 / 10) = Fin (3602879701896397 / 36028797018963968)
   \<and> Xpx (Fin (3602879701896397 / 36028797018963968)) = Fin (3391773469363405 / 140737488355328)
   \<and> num_sub (Xpx (Fin (3602879701896397 / 36028797018963968))) PAD
        = Fin (14073748835533 / 140737488355328)
   \<and> num_sub (Xpx (Fin (3602879701896397 / 36028797018963968))) PAD
        \<noteq> Fin (3602879701896397 / 36028797018963968)"
  by (simp add: binary64_tenth Xpx_tenth back_tenth)

section \<open>The table view\<close>

text \<open>
  Claim C10. \<open>groupByStep\<close> never fails and returns exactly one group for each distinct
  step value of the row list, in the order in which the steps first occur; the group of
  a step holds every row of that step, in the order of the row list, wherever the rows
  stand (a later row of a step already seen joins the group of that step). The body of
  the table is, group after group in that order, one \<open>tr\<close> for each row of the group,
  with the cells of the row; the first \<open>tr\<close> of a group, and no other, carries the
  checkbox cell, whose \<open>rowSpan\<close> is the number of rows of the group, whose state is
  \<open>isVisible\<close> of the step and which toggles that step. So the table has one checkbox
  cell for each group and one \<open>tr\<close> for each row of the list. The last conjunct is the
  table of three rows whose first and third share a step.
\<close>

theorem C10_groupByStep_first_occurrence:
  "groupByStep rws = Inr (groups_spec rws)
   \<and> map g_step (groups_spec rws) = first_seen (map row_step rws)
   \<and> distinct (map g_step (groups_spec rws))
   \<and> set (map g_step (groups_spec rws)) = row_step ` set rws
   \<and> StepsTable4Col rws vis =
     Inr (concat (map (\<lambda>s. map (\<lambda>(idx, rw).
              \<lparr>tr_key = (s, idx),
               checkbox =
                 (if idx = 0
                  then Some \<lparr>rowSpan = length (filter (\<lambda>rw. row_step rw = s) rws),
                              checked = vis s, cb_step = s\<rparr>
                  else None),
               td_where = row_where rw,
               td_directive = row_directive rw,
               td_ideas = (case row_ideas rw of Some t \<Rightarrow> t | None \<Rightarrow> [])\<rparr>)
            (enumerate 0 (filter (\<lambda>rw. row_step rw = s) rws)))
          (first_seen (map row_step rws))))
   \<and> map_sum id (List.map_filter checkbox) (StepsTable4Col rws vis)
       = Inr (map (\<lambda>s. \<lparr>rowSpan = length (filter (\<lambda>rw. row_step rw = s) rws),
                           checked = vis s, cb_step = s\<rparr>)
                (first_seen (map row_step rws)))
   \<and> map_sum id length (StepsTable4Col rws vis) = Inr (length rws)
   \<and> StepsTable4Col
       [\<lparr>row_step = 2, row_where = ''a'', row_directive = ''d1'', row_ideas = Some ''i1''\<rparr>,
        \<lparr>row_step = 1, row_where = ''b'', row_directive = ''d2'', row_ideas = None\<rparr>,
        \<lparr>row_step = 2, row_where = ''c'', row_directive = ''d3'', row_ideas = None\<rparr>]
       (\<lambda>s. s \<noteq> 1)
   = Inr [\<lparr>tr_key = (2, 0),
           checkbox = Some \<lparr>rowSpan = 2, checked = True, cb_step = 2\<rparr>,
           td_where = ''a'', td_directive = ''d1'', td_ideas = ''i1''\<rparr>,
          \<lparr>tr_key = (2, 1), checkbox = None,
           td_where = ''c'', td_directive = ''d3'', td_ideas = []\<rparr>,
          \<lparr>tr_key = (1, 0),
           checkbox = Some \<lparr>rowSpan = 1, checked = False, cb_step = 1\<rparr>,
           td_where = ''b'', td_directive = ''d2'', td_ideas = []\<rparr>]"
proof -
  let ?ks = "first_seen (map row_step rws)"
  have steps: "map g_step (groups_spec rws) = ?ks"
    by (simp add: groups_spec_def comp_def)
  have boxes: "concat (map (\<lambda>s. List.map_filter checkbox (map (\<lambda>(idx, rw).
                     tableRow vis s (length (filter (\<lambda>rw. row_step rw = s) rws)) idx rw)
                   (enumerate 0 (filter (\<lambda>rw. row_step rw = s) rws)))) ?ks)
      = concat (map (\<lambda>s. [\<lparr>rowSpan = length (filter (\<lambda>rw. row_step rw = s) rws),
                           checked = vis s, cb_step = s\<rparr>]) ?ks)"
    by (intro arg_cong [where f = concat] map_cong refl checkbox_group filter_step_nonempty)
      (simp add: set_first_seen)
  have len: "sum_list (map (\<lambda>s. length (filter (\<lambda>rw. row_step rw = s) rws)) ?ks) = length rws"
    by (rule length_groups_total) (simp_all add: distinct_first_seen set_first_seen)
  have cells: "map_sum id (List.map_filter checkbox) (StepsTable4Col rws vis)
       = Inr (map (\<lambda>s. \<lparr>rowSpan = length (filter (\<lambda>rw. row_step rw = s) rws),
                           checked = vis s, cb_step = s\<rparr>) ?ks)"
    using boxes by (simp add: StepsTable4Col_spec map_filter_concat comp_def)
  have count: "map_sum id length (StepsTable4Col rws vis) = Inr (length rws)"
    using len by (simp add: StepsTable4Col_spec comp_def length_concat)
  have dist: "distinct (map g_step (groups_spec rws))"
    unfolding steps by (rule distinct_first_seen)
  have dom: "set (map g_step (groups_spec rws)) = row_step ` set rws"
    unfolding steps by (simp add: set_first_seen)
  show ?thesis
    by (intro conjI groupByStep_spec steps dist dom StepsTable4Col_rows cells count
        StepsTable4Col_example)
qed

section \<open>The renderer\<close>

text \<open>
  Claim C1, as the code has it. For every circle segment whose reference marker is in
  the geometry table, \<open>DrawSegment\<close> draws a circle whose radius is half the width of
  the arena (100) and whose centre is the projection of the point of the centre line at
  the long-axis coordinate of the marker: \<open>(Xpx(ARENA_W / 2), Ypx(p.y))\<close>. This is the
  projected position of the marker exactly for the markers of the centre line
  (C, A, G, X, D). The circle is the same for the directions \<open>left\<close> and \<open>right\<close>.
\<close>

theorem C1_circle_geometry:
  assumes "js_get geom a = Own p"
  shows "DrawSegment (CircleSeg a d l s)
      = Inr (Some (CircleEl (Xpx (num_div ARENA_W (Fin 2))) (Ypx (snd p)) (num_div ARENA_W (Fin 2))))
    \<and> num_div ARENA_W (Fin 2) = Fin 100
    \<and> Xpx (num_div ARENA_W (Fin 2)) = Fin 124
    \<and> ((Xpx (num_div ARENA_W (Fin 2)), Ypx (snd p)) = (Xpx (fst p), Ypx (snd p))
         \<longleftrightarrow> a \<in> {''C'', ''A'', ''G'', ''X'', ''D''})
    \<and> DrawSegment (CircleSeg a DirLeft l s) = DrawSegment (CircleSeg a DirRight l s)"
proof -
  have draw: "DrawSegment (CircleSeg a d l s)
      = Inr (Some (CircleEl (Xpx (num_div ARENA_W (Fin 2))) (Ypx (snd p)) (num_div ARENA_W (Fin 2))))"
    using assms by (simp add: CircleAt_def)
  have centre: "(Xpx (num_div ARENA_W (Fin 2)), Ypx (snd p)) = (Xpx (fst p), Ypx (snd p))
         \<longleftrightarrow> a \<in> {''C'', ''A'', ''G'', ''X'', ''D''}"
    using geom_Own_entry [OF assms] unfolding Xpx_half_width
    by (auto simp: arena_simps)
  have dir: "DrawSegment (CircleSeg a DirLeft l s) = DrawSegment (CircleSeg a DirRight l s)"
    by simp
  show ?thesis
    using draw centre half_width Xpx_half_width dir by blast
qed

theorem C1_circle_geometry_witness:
  "js_get geom ''E'' = Own (Fin 0, Fin 200)
   \<and> DrawSegment (CircleSeg ''E'' DirLeft None 5) = Inr (Some (CircleEl (Fin 124) (Fin 224) (Fin 100)))
   \<and> DrawSegment (CircleSeg ''E'' DirLeft None 5) = DrawSegment (CircleSeg ''E'' DirRight None 5)"
proof -
  have h: "js_get geom ''E'' = Own (Fin 0, Fin 200)"
    by (simp add: js_get_def geom_values)
  show ?thesis
    using h C1_circle_geometry [OF h, of DirLeft None 5]
    by (simp add: arena_simps)
qed

text \<open>
  Claim C1 as stated (the centre is the projected position of the reference marker)
  fails for the circle of step 3 of the seeded test: the marker B projects to
  \<open>(224, 224)\<close> and the circle drawn has its centre at \<open>(124, 224)\<close>.
\<close>

theorem C1_counterexample:
  "js_get geom ''B'' = Own (Fin 200, Fin 200)
   \<and> DrawSegment (circle 3 ''B'' DirRight) = Inr (Some (CircleEl (Fin 124) (Fin 224) (Fin 100)))
   \<and> (Xpx (Fin 200), Ypx (Fin 200)) = (Fin 224, Fin 224)
   \<and> (Fin 124, Fin 224) \<noteq> (Xpx (Fin 200), Ypx (Fin 200))"
  by (simp add: circle_def CircleAt_def js_get_def geom_values arena_simps)

text \<open>
  Claim C4, as the code has it. A circle segment whose marker is unknown draws nothing
  and raises no error. A line segment with an unknown waypoint makes \<open>DrawSegment\<close>
  throw \<open>Unknown letter\<close> for the first such waypoint, and when such a line segment
  belongs to the active test and its step is visible, rendering the page fails with an
  \<open>Unknown letter\<close> error. (A marker is unknown when the lookup in the table gives
  \<open>undefined\<close>.)
\<close>

theorem C4_unknown_marker:
  "(js_get geom a = Undefined \<longrightarrow> DrawSegment (CircleSeg a d l s) = Inr None)
   \<and> ((\<exists>i\<in>set wps. js_get geom i = Undefined) \<longrightarrow>
        (\<exists>i\<in>set wps. js_get geom i = Undefined
            \<and> DrawSegment (LineSeg wps l s) = Inl (UnknownLetter i)))
   \<and> (LineSeg wps l s \<in> set (segmentsOf (activeTest tests (activeTestId st)))
        \<and> isStepVisible (hiddenSteps st) s
        \<and> (\<exists>i\<in>set wps. js_get geom i = Undefined) \<longrightarrow>
        (\<exists>i. js_get geom i = Undefined \<and> Page tests st = Inl (UnknownLetter i)))"
proof (intro conjI impI)
  assume "js_get geom a = Undefined"
  then show "DrawSegment (CircleSeg a d l s) = Inr None"
    by (simp add: CircleAt_def)
next
  assume "\<exists>i\<in>set wps. js_get geom i = Undefined"
  from toPoints_unknown [OF this]
  show "\<exists>i\<in>set wps. js_get geom i = Undefined
      \<and> DrawSegment (LineSeg wps l s) = Inl (UnknownLetter i)"
    by auto
next
  let ?segs = "segmentsOf (activeTest tests (activeTestId st))"
  assume a: "LineSeg wps l s \<in> set ?segs \<and> isStepVisible (hiddenSteps st) s
      \<and> (\<exists>i\<in>set wps. js_get geom i = Undefined)"
  then obtain i where "DrawSegment (LineSeg wps l s) = Inl (UnknownLetter i)"
    using toPoints_unknown [of wps] by auto
  moreover have "Some (LineSeg wps l s) \<in> set (pathChildren (hiddenSteps st) ?segs)"
    using a by (force simp: pathChildren_def)
  ultimately obtain e where "drawPath (hiddenSteps st) ?segs = Inl e"
    unfolding drawPath_def using renderChildren_fails by blast
  then have p: "Page tests st = Inl e" by (rule Page_path_error)
  from Page_error [OF p] p
  show "\<exists>i. js_get geom i = Undefined \<and> Page tests st = Inl (UnknownLetter i)"
    by auto
qed


theorem C4_unknown_marker_witness:
  "js_get geom ''Z'' = Undefined
   \<and> DrawSegment (CircleSeg ''Z'' DirLeft None 1) = Inr None
   \<and> js_get geom ''Q'' = Undefined
   \<and> DrawSegment (LineSeg [''A'', ''Q''] None 1) = Inl (UnknownLetter ''Q'')
   \<and> LineSeg [''A'', ''Q''] None 1 \<in> set (segmentsOf (activeTest
        [(''t'', \<lparr>test_id = ''t'', test_name = ''t'', rows = None, steps = None,
            segments = Some [LineSeg [''A'', ''Q''] None 1, CircleSeg ''Z'' DirLeft None 2]\<rparr>)]
        (activeTestId \<lparr>activeTestId = ''t'', hiddenSteps = []\<rparr>)))
   \<and> isStepVisible (hiddenSteps \<lparr>activeTestId = ''t'', hiddenSteps = []\<rparr>) 1
   \<and> Page [(''t'', \<lparr>test_id = ''t'', test_name = ''t'', rows = None, steps = None,
            segments = Some [LineSeg [''A'', ''Q''] None 1, CircleSeg ''Z'' DirLeft None 2]\<rparr>)]
          \<lparr>activeTestId = ''t'', hiddenSteps = []\<rparr> = Inl (UnknownLetter ''Q'')"
proof -
  let ?tests = "[(''t'', \<lparr>test_id = ''t'', test_name = ''t'', rows = None, steps = None,
            segments = Some [LineSeg [''A'', ''Q''] None 1, CircleSeg ''Z'' DirLeft None 2]\<rparr>)]"
  let ?st = "\<lparr>activeTestId = ''t'', hiddenSteps = []\<rparr>"
  have z: "js_get geom ''Z'' = Undefined" and q: "js_get geom ''Q'' = Undefined"
    by (simp_all add: js_get_def geom_values object_prototype_keys_def)
  have a: "js_get geom ''A'' = Own (Fin 100, Fin 400)"
    by (simp add: js_get_def geom_values)
  have unk: "\<exists>i\<in>set [''A'', ''Q'']. js_get geom i = Undefined"
    using q by simp
  have mem: "LineSeg [''A'', ''Q''] None 1 \<in> set (segmentsOf (activeTest ?tests (activeTestId ?st)))"
    by (simp add: segmentsOf_def activeTest_def js_get_def)
  have vis: "isStepVisible (hiddenSteps ?st) 1"
    by (simp add: isStepVisible_def Set_has_def)
  note t = C4_unknown_marker [where a = "''Z''" and d = DirLeft and l = None and s = 1
      and wps = "[''A'', ''Q'']" and tests = ?tests and st = ?st]
  have line: "DrawSegment (LineSeg [''A'', ''Q''] None 1) = Inl (UnknownLetter ''Q'')"
    using t unk a q by auto
  from t unk mem vis obtain i where
    "Page ?tests ?st = Inl (UnknownLetter i)" by blast
  moreover have "segmentsOf (activeTest ?tests (activeTestId ?st))
      = [LineSeg [''A'', ''Q''] None 1, CircleSeg ''Z'' DirLeft None 2]"
    by (simp add: segmentsOf_def activeTest_def js_get_def)
  then have "map_sum (\<lambda>e. e) (\<lambda>d. ()) (Page ?tests ?st) = Inl (UnknownLetter ''Q'')"
    unfolding Page_def Let_def drawLetters_LETTERS
    by (simp add: drawPath_def pathChildren_def isStepVisible_def Set_has_def line
        del: DrawSegment.simps)
  ultimately have page: "Page ?tests ?st = Inl (UnknownLetter ''Q'')" by simp
  from t z unk mem vis line q page show ?thesis by blast
qed

text \<open>
  Claim C4 as stated (every segment with an unknown marker, line or circle, makes
  rendering fail) fails for a circle: a test whose only segment is a visible circle at
  the unknown marker Z renders without error, with nothing drawn for the segment. It
  fails as well for a line segment whose step is hidden, which is not drawn at all.
\<close>

theorem C4_counterexample:
  "js_get geom ''Z'' = Undefined
   \<and> isStepVisible (hiddenSteps \<lparr>activeTestId = ''t'', hiddenSteps = []\<rparr>) 1
   \<and> map_sum id path
        (Page [(''t'', \<lparr>test_id = ''t'', test_name = ''t'', rows = None, steps = None,
                  segments = Some [circle 1 ''Z'' DirLeft]\<rparr>)]
           \<lparr>activeTestId = ''t'', hiddenSteps = []\<rparr>) = Inr [None]
   \<and> \<not> isStepVisible (hiddenSteps \<lparr>activeTestId = ''t'', hiddenSteps = [1]\<rparr>) 1
   \<and> map_sum id path
        (Page [(''t'', \<lparr>test_id = ''t'', test_name = ''t'', rows = None, steps = None,
                  segments = Some [line 1 [''Z'']]\<rparr>)]
           \<lparr>activeTestId = ''t'', hiddenSteps = [1]\<rparr>) = Inr [None]"
  by (simp add: Page_def Let_def drawLetters_LETTERS StepsTable4Col_spec drawPath_def
      pathChildren_def isStepVisible_def Set_has_def segmentsOf_def stepRows_def activeTest_def
      js_get_def circle_def line_def CircleAt_def geom_values object_prototype_keys_def)



section \<open>The test definition store\<close>

text \<open>
  Claim C2, as the code has it. For a test identifier for which the lookup in the store
  gives \<open>undefined\<close>, selecting it is accepted (it becomes \<open>activeTestId\<close>) and the
  page does not fail on it: the active test is the first test of the store, so the page
  is the page of the default identifier; with an empty store there is no active test and
  the page shows the letters, no segment and no row. The only error a render can raise
  is \<open>Unknown letter\<close>.
\<close>

theorem C2_unknown_test_id_falls_back:
  assumes "js_get tests tid = Undefined"
  shows "activeTestId (selectTest tid st) = tid
    \<and> activeTest tests tid = (case tests of [] \<Rightarrow> Undefined | (k, d) # _ \<Rightarrow> Own d)
    \<and> activeTest tests tid = activeTest tests (defaultTestId tests)
    \<and> Page tests \<lparr>activeTestId = tid, hiddenSteps = h\<rparr>
        = Page tests \<lparr>activeTestId = defaultTestId tests, hiddenSteps = h\<rparr>
    \<and> (tests = [] \<longrightarrow>
          Page tests \<lparr>activeTestId = tid, hiddenSteps = h\<rparr>
            = map_sum id (\<lambda>ls. \<lparr>labels = ls, path = [], tbody = []\<rparr>) (drawLetters LETTERS))
    \<and> (\<forall>e. Page tests \<lparr>activeTestId = tid, hiddenSteps = h\<rparr> = Inl e \<longrightarrow>
          (\<exists>i. js_get geom i = Undefined \<and> e = UnknownLetter i))"
proof -
  have sel: "activeTestId (selectTest tid st) = tid"
    by (simp add: selectTest_def resetEffect_def setActiveTestId_def)
  have fb: "activeTest tests tid = (case tests of [] \<Rightarrow> Undefined | (k, d) # _ \<Rightarrow> Own d)"
    using assms by (rule activeTest_fallback)
  have same: "activeTest tests tid = activeTest tests (defaultTestId tests)"
    unfolding fb activeTest_default ..
  have page: "Page tests \<lparr>activeTestId = tid, hiddenSteps = h\<rparr>
        = Page tests \<lparr>activeTestId = defaultTestId tests, hiddenSteps = h\<rparr>"
    using same by (rule Page_depends_on_activeTest)
  have empty: "tests = [] \<longrightarrow>
          Page tests \<lparr>activeTestId = tid, hiddenSteps = h\<rparr>
            = map_sum id (\<lambda>ls. \<lparr>labels = ls, path = [], tbody = []\<rparr>) (drawLetters LETTERS)"
    using fb by (auto intro: Page_empty_store)
  have err: "\<forall>e. Page tests \<lparr>activeTestId = tid, hiddenSteps = h\<rparr> = Inl e \<longrightarrow>
          (\<exists>i. js_get geom i = Undefined \<and> e = UnknownLetter i)"
    using Page_error by blast
  from sel fb same page empty err show ?thesis by blast
qed

theorem C2_unknown_test_id_falls_back_witness:
  "js_get TESTS ''nope'' = Undefined
   \<and> activeTest TESTS ''nope'' = Own introA
   \<and> Page TESTS \<lparr>activeTestId = ''nope'', hiddenSteps = []\<rparr>
        = Page TESTS \<lparr>activeTestId = ''introA'', hiddenSteps = []\<rparr>
   \<and> js_get ([] :: (string \<times> TestDef) list) ''nope'' = Undefined
   \<and> map_sum id path (Page [] \<lparr>activeTestId = ''nope'', hiddenSteps = []\<rparr>) = Inr []"
proof -
  have h1: "js_get TESTS ''nope'' = Undefined"
    by (simp add: js_get_def TESTS_def object_prototype_keys_def)
  have h2: "js_get ([] :: (string \<times> TestDef) list) ''nope'' = Undefined"
    by (simp add: js_get_def object_prototype_keys_def)
  have d: "defaultTestId TESTS = ''introA''"
    by (simp add: defaultTestId_def testIds_def Object_keys_def TESTS_def)
  note t1 = C2_unknown_test_id_falls_back [OF h1, of "initialState TESTS" "[]"]
  note t2 = C2_unknown_test_id_falls_back [OF h2, of "initialState TESTS" "[]"]
  have a: "activeTest TESTS ''nope'' = Own introA"
    using t1 by (simp add: TESTS_def)
  have p: "Page TESTS \<lparr>activeTestId = ''nope'', hiddenSteps = []\<rparr>
        = Page TESTS \<lparr>activeTestId = ''introA'', hiddenSteps = []\<rparr>"
    using t1 unfolding d by blast
  have "Page [] \<lparr>activeTestId = ''nope'', hiddenSteps = []\<rparr>
      = map_sum id (\<lambda>ls. \<lparr>labels = ls, path = [], tbody = []\<rparr>) (drawLetters LETTERS)"
    using t2 by blast
  then have e: "map_sum id path (Page [] \<lparr>activeTestId = ''nope'', hiddenSteps = []\<rparr>) = Inr []"
    by (simp add: drawLetters_LETTERS)
  from h1 h2 a p e show ?thesis by blast
qed

text \<open>
  Claim C2 as stated (an identifier that is not in the store fails with a NotFound
  error and never falls back to another test) fails for the identifier \<open>nope\<close> on the
  seeded store: the active test is \<open>introA\<close> and the page drawn is the page of
  \<open>introA\<close>, with its eight segments.
\<close>

theorem C2_counterexample:
  "js_get TESTS ''nope'' = Undefined
   \<and> selectTest ''nope'' (initialState TESTS) = \<lparr>activeTestId = ''nope'', hiddenSteps = []\<rparr>
   \<and> activeTest TESTS ''nope'' = Own introA
   \<and> Page TESTS (selectTest ''nope'' (initialState TESTS)) = Page TESTS (initialState TESTS)
   \<and> map_sum id path (Page TESTS (selectTest ''nope'' (initialState TESTS))) =
        Inr [Some (PolylineEl [(Fin 124, Fin 424), (Fin 124, Fin 224), (Fin 124, Fin 24)]),
             Some (PolylineEl [(Fin 124, Fin 24), (Fin 224, Fin 84)]),
             Some (CircleEl (Fin 124) (Fin 224) (Fin 100)),
             Some (PolylineEl [(Fin 24, Fin 364), (Fin 124, Fin 224), (Fin 224, Fin 84)]),
             Some (CircleEl (Fin 124) (Fin 224) (Fin 100)),
             Some (PolylineEl [(Fin 24, Fin 224), (Fin 124, Fin 24), (Fin 24, Fin 84)]),
             Some (PolylineEl [(Fin 24, Fin 84), (Fin 124, Fin 224), (Fin 224, Fin 364)]),
             Some (PolylineEl [(Fin 224, Fin 364), (Fin 124, Fin 424), (Fin 124, Fin 224)])]"
proof -
  have u: "js_get TESTS ''nope'' = Undefined"
    by (simp add: js_get_def TESTS_def object_prototype_keys_def)
  have s: "selectTest ''nope'' (initialState TESTS) = \<lparr>activeTestId = ''nope'', hiddenSteps = []\<rparr>"
    by (simp add: selectTest_def resetEffect_def setActiveTestId_def initialState_TESTS Set_new_def)
  have a: "activeTest TESTS ''nope'' = Own introA"
    using activeTest_fallback [OF u] by (simp add: TESTS_def)
  have "Page TESTS \<lparr>activeTestId = ''nope'', hiddenSteps = []\<rparr>
      = Page TESTS \<lparr>activeTestId = ''introA'', hiddenSteps = []\<rparr>"
    by (rule Page_depends_on_activeTest) (simp add: a introA_active)
  then have p: "Page TESTS (selectTest ''nope'' (initialState TESTS)) = Page TESTS (initialState TESTS)"
    by (simp only: s) (simp only: initialState_TESTS)
  have "map_sum id path (Page TESTS (initialState TESTS)) = drawPath [] introA_segments"
    unfolding Page_path by (simp add: initialState_TESTS introA_active introA_segmentsOf)
  then have d: "map_sum id path (Page TESTS (selectTest ''nope'' (initialState TESTS)))
      = drawPath [] introA_segments"
    unfolding p .
  show ?thesis
    unfolding d introA_path_all using u s a p by blast
qed

end
